theory Spec2Isabelle
  imports Main "HOL-Library.Sublist" "HOL-Library.AList"
begin

section \<open>A model of main.py: version probe, dependency check, 2to3 preview and migration\<close>

text \<open>
  The script is a sequence of calls to external programs, to the file system, to the
  logger and to the terminal. The model makes each of them explicit:
  \<^item> text is a \<open>string\<close>; its characters stand for the code points below 256, and the
    output of a process is modelled after \<^verbatim>\<open>.decode()\<close> (it is taken to be valid UTF-8);
  \<^item> the file system is a tree of files and directories below the working directory of
    the process, and a path is resolved to a list of names, \<^verbatim>\<open>..\<close> being read from the
    text of the path;
  \<^item> what the external programs, the marker evaluator and the terminal answer is a
    parameter of every function, the record \<open>world\<close>;
  \<^item> every call that can be observed from outside is appended to a trace;
  \<^item> a Python exception is a value: every function returns \<open>(exn + 'a) \<times> state\<close>, the
    state being the one reached when the exception was raised;
  \<^item> the external programs change no file, but \<^verbatim>\<open>2to3 --write\<close>, which changes the
    directory it is given and nothing else; the logger never raises.
\<close>

subsection \<open>Text\<close>

definition nl :: string where
  "nl = [CHR 0x0A]"

definition quote :: string where
  "quote = [CHR 0x27]"

text \<open>\<^verbatim>\<open>str.startswith\<close> and \<^verbatim>\<open>str.endswith\<close>.\<close>

definition startswith :: "string \<Rightarrow> string \<Rightarrow> bool" where
  "startswith s p = (take (length p) s = p)"

definition endswith :: "string \<Rightarrow> string \<Rightarrow> bool" where
  "endswith s p = (length p \<le> length s \<and> drop (length s - length p) s = p)"

text \<open>\<^verbatim>\<open>str.isspace\<close> on one character, for the code points below 256.\<close>

definition is_space :: "char \<Rightarrow> bool" where
  "is_space c = ((of_char c :: nat) \<in> {9, 10, 11, 12, 13, 28, 29, 30, 31, 32, 133, 160})"

text \<open>\<^verbatim>\<open>str.strip()\<close>: white space is removed at both ends.\<close>

definition strip :: "string \<Rightarrow> string" where
  "strip s = rev (dropWhile is_space (rev (dropWhile is_space s)))"

text \<open>\<^verbatim>\<open>str.lower()\<close>: A-Z, and the upper-case letters of Latin-1 (0xC0-0xDE but 0xD7).\<close>

definition lower_char :: "char \<Rightarrow> char" where
  "lower_char c =
     (let n = (of_char c :: nat)
      in if (65 \<le> n \<and> n \<le> 90) \<or> (192 \<le> n \<and> n \<le> 222 \<and> n \<noteq> 215)
         then char_of (n + 32) else c)"

definition lower :: "string \<Rightarrow> string" where
  "lower s = map lower_char s"

subsection \<open>The two regular expressions\<close>

definition is_digit :: "char \<Rightarrow> bool" where
  "is_digit c = (48 \<le> (of_char c :: nat) \<and> (of_char c :: nat) \<le> 57)"

definition is_alpha :: "char \<Rightarrow> bool" where
  "is_alpha c =
     ((65 \<le> (of_char c :: nat) \<and> (of_char c :: nat) \<le> 90) \<or>
      (97 \<le> (of_char c :: nat) \<and> (of_char c :: nat) \<le> 122))"

text \<open>
  \<^verbatim>\<open>\d+\.\d+\.\d+\<close> matched at the start of a text. A run of digits is never followed by
  a digit, so the greedy \<^verbatim>\<open>\d+\<close> takes the whole run and backtracking finds nothing more.
  The result is the matched text, group 1 of the pattern of \<^verbatim>\<open>scan_python_version\<close>.
\<close>

definition match_version :: "string \<Rightarrow> string option" where
  "match_version s =
     (let a = takeWhile is_digit s in
      if a = [] then None else
      case dropWhile is_digit s of
        c1 # r1 \<Rightarrow>
          if c1 \<noteq> CHR ''.'' then None else
          (let b = takeWhile is_digit r1 in
           if b = [] then None else
           case dropWhile is_digit r1 of
             c2 # r2 \<Rightarrow>
               if c2 \<noteq> CHR ''.'' then None else
               (let c = takeWhile is_digit r2 in
                if c = [] then None else Some (a @ ''.'' @ b @ ''.'' @ c))
           | [] \<Rightarrow> None)
      | [] \<Rightarrow> None)"

text \<open>
  \<^verbatim>\<open>re.search(r"Python (\d+\.\d+\.\d+)", text)\<close>: the leftmost match, \<open>None\<close> when
  there is none.
\<close>

fun re_search_version :: "string \<Rightarrow> string option" where
  "re_search_version [] = None"
| "re_search_version (c # cs) =
     (if startswith (c # cs) ''Python '' then
        (case match_version (drop 7 (c # cs)) of
           Some v \<Rightarrow> Some v
         | None \<Rightarrow> re_search_version cs)
      else re_search_version cs)"

text \<open>The character classes \<^verbatim>\<open>[a-zA-Z0-9_-]\<close> and \<^verbatim>\<open>[0-9.]\<close>.\<close>

definition name_char :: "char \<Rightarrow> bool" where
  "name_char c = (is_alpha c \<or> is_digit c \<or> c = CHR ''_'' \<or> c = CHR ''-'')"

definition version_char :: "char \<Rightarrow> bool" where
  "version_char c = (is_digit c \<or> c = CHR ''.'')"

text \<open>
  \<^verbatim>\<open>([a-zA-Z0-9_-]+)==([0-9.]+)\<close> matched at the start of a text: the two groups.
  \<^verbatim>\<open>=\<close> is in neither class, so here too the greedy runs are the only candidates.
\<close>

definition match_dependency :: "string \<Rightarrow> (string \<times> string) option" where
  "match_dependency s =
     (let name = takeWhile name_char s in
      if name = [] then None else
      case dropWhile name_char s of
        e1 # e2 # r \<Rightarrow>
          if e1 \<noteq> CHR ''='' \<or> e2 \<noteq> CHR ''='' then None else
          (let version = takeWhile version_char r in
           if version = [] then None else Some (name, version))
      | _ \<Rightarrow> None)"

text \<open>
  \<^verbatim>\<open>re.findall\<close> with that pattern: the matches from left to right, none overlapping;
  after a match of \<open>n\<close> characters the scan goes on \<open>n\<close> characters further.
\<close>

fun re_findall_dependencies :: "string \<Rightarrow> (string \<times> string) list" where
  "re_findall_dependencies [] = []"
| "re_findall_dependencies (c # cs) =
     (case match_dependency (c # cs) of
        Some (name, version) \<Rightarrow>
          (name, version) #
            re_findall_dependencies (drop (length name + 1 + length version) cs)
      | None \<Rightarrow> re_findall_dependencies cs)"

subsection \<open>Python values and exceptions\<close>

text \<open>
  What a call into a library may give back. \<^verbatim>\<open>not x\<close> and \<^verbatim>\<open>if x:\<close> read the truth value
  of any object.
\<close>

datatype pyval = PyBool bool | PyNone | PyInt int | PyStr string

fun truthy :: "pyval \<Rightarrow> bool" where
  "truthy (PyBool b) = b"
| "truthy PyNone = False"
| "truthy (PyInt i) = (i \<noteq> 0)"
| "truthy (PyStr s) = (s \<noteq> [])"

text \<open>
  The exceptions of the model. \<open>CalledProcessError\<close> carries its \<^verbatim>\<open>str()\<close> and the
  captured output (\<^verbatim>\<open>e.output\<close>); the others carry their class and their \<^verbatim>\<open>str()\<close>.
  \<open>OtherException\<close> stands for any further subclass of \<^verbatim>\<open>Exception\<close> that is not a
  \<^verbatim>\<open>RuntimeError\<close>; \<open>KeyboardInterrupt\<close> is not a subclass of \<^verbatim>\<open>Exception\<close>.
\<close>

datatype exn_class =
  RuntimeError | AttributeError | FileExistsError | FileNotFoundError
| NotADirectoryError | IsADirectoryError | EOFError | KeyboardInterrupt | OtherException

datatype exn =
  CalledProcessError (str_of: string) (captured: string)
| Raised (cls: exn_class) (str_of: string)

text \<open>\<^verbatim>\<open>except RuntimeError\<close> and \<^verbatim>\<open>except Exception\<close>: which exceptions the clause catches.\<close>

fun is_RuntimeError :: "exn \<Rightarrow> bool" where
  "is_RuntimeError (CalledProcessError m out) = False"
| "is_RuntimeError (Raised c m) = (c = RuntimeError)"

fun is_Exception :: "exn \<Rightarrow> bool" where
  "is_Exception (CalledProcessError m out) = True"
| "is_Exception (Raised c m) = (c \<noteq> KeyboardInterrupt)"

subsection \<open>The file system\<close>

text \<open>
  A tree of regular files and directories; the entries of a directory are kept in the
  order in which the system lists them. The root of the tree is the working directory
  of the process. Links, permissions and special files are outside the model.
\<close>

datatype node = File string | Dir "(string \<times> node) list"

type_synonym path = "string list"

fun lookup :: "node \<Rightarrow> path \<Rightarrow> node option" where
  "lookup n [] = Some n"
| "lookup (File c) (x # p) = None"
| "lookup (Dir es) (x # p) =
     (case map_of es x of None \<Rightarrow> None | Some sub \<Rightarrow> lookup sub p)"

text \<open>
  From the text of a path to its list of names: the text is cut at every \<^verbatim>\<open>/\<close>, empty
  names and \<^verbatim>\<open>.\<close> are dropped, \<^verbatim>\<open>..\<close> removes the name before it. This is how the
  system reads a plain path, one or more names separated by single \<^verbatim>\<open>/\<close>, and the path
  \<^verbatim>\<open>.\<close>; the paths of the script are of this kind. For a path with \<^verbatim>\<open>..\<close> or a leading
  \<^verbatim>\<open>/\<close> it is only the reading of the text: the system follows \<^verbatim>\<open>..\<close> through the
  directories that exist, and an absolute path may lead outside the working directory.
  Statements about the files of arbitrary directories are therefore made for plain
  paths.
\<close>

primrec split_slash :: "string \<Rightarrow> string list" where
  "split_slash [] = [[]]"
| "split_slash (c # cs) =
     (if c = CHR ''/'' then [] # split_slash cs
      else (case split_slash cs of
              x # xs \<Rightarrow> (c # x) # xs
            | [] \<Rightarrow> [[c]]))"

definition resolve_step :: "path \<Rightarrow> string \<Rightarrow> path" where
  "resolve_step p x =
     (if x = [] \<or> x = ''.'' then p
      else if x = ''..'' then butlast p
      else p @ [x])"

definition resolve :: "string \<Rightarrow> path" where
  "resolve s = foldl resolve_step [] (split_slash s)"

text \<open>
  A plain path: names separated by single \<^verbatim>\<open>/\<close>, all of them non-empty and none of them
  \<^verbatim>\<open>.\<close> or \<^verbatim>\<open>..\<close>. It is relative, and \<open>resolve\<close> reads it as the system does.
\<close>

definition plain_path :: "string \<Rightarrow> bool" where
  "plain_path s = (\<forall>x \<in> set (split_slash s). x \<noteq> [] \<and> x \<noteq> ''.'' \<and> x \<noteq> ''..'')"

text \<open>\<^verbatim>\<open>os.path.exists\<close> and \<^verbatim>\<open>os.path.join\<close> (of two parts, as \<^verbatim>\<open>posixpath\<close> has it).\<close>

definition os_path_exists :: "node \<Rightarrow> string \<Rightarrow> bool" where
  "os_path_exists t s = (lookup t (resolve s) \<noteq> None)"

definition os_path_join :: "string \<Rightarrow> string \<Rightarrow> string" where
  "os_path_join a b =
     (if startswith b ''/'' then b
      else if a = [] \<or> endswith a ''/'' then a @ b
      else a @ ''/'' @ b)"

text \<open>
  \<^verbatim>\<open>os.walk(top)\<close>, top-down: one triple (root, names of the directories, names of the
  files) for the directory itself, then the triples of each of its directories, in
  the order of the listing. A top that is not a directory gives no triple (the error of
  the listing is dropped by \<^verbatim>\<open>os.walk\<close>).
\<close>

fun dirnames :: "(string \<times> node) list \<Rightarrow> string list" where
  "dirnames [] = []"
| "dirnames ((name, Dir es) # rest) = name # dirnames rest"
| "dirnames ((name, File c) # rest) = dirnames rest"

fun filenames :: "(string \<times> node) list \<Rightarrow> string list" where
  "filenames [] = []"
| "filenames ((name, Dir es) # rest) = filenames rest"
| "filenames ((name, File c) # rest) = name # filenames rest"

fun walk :: "string \<Rightarrow> node \<Rightarrow> (string \<times> string list \<times> string list) list" where
  "walk root (File c) = []"
| "walk root (Dir es) =
     (root, dirnames es, filenames es) #
       concat (map (\<lambda>(name, sub). walk (os_path_join root name) sub) es)"

definition os_walk :: "node \<Rightarrow> string \<Rightarrow> (string \<times> string list \<times> string list) list" where
  "os_walk t root = (case lookup t (resolve root) of None \<Rightarrow> [] | Some n \<Rightarrow> walk root n)"

text \<open>The \<^verbatim>\<open>str()\<close> of an \<^verbatim>\<open>OSError\<close> about a file, for a name that \<^verbatim>\<open>repr\<close> leaves as it is.\<close>

definition os_error :: "exn_class \<Rightarrow> string \<Rightarrow> string \<Rightarrow> exn" where
  "os_error c what name = Raised c (what @ '': '' @ quote @ name @ quote)"

text \<open>
  \<open>store mk name here p n t\<close> puts the node \<open>n\<close> at the path \<open>p\<close> of the tree \<open>t\<close>;
  \<open>name\<close> is the text of the whole path and \<open>here\<close> the text of the path of \<open>t\<close>. The
  directories on the way must exist, unless \<open>mk\<close> is set: then they are created, as
  \<^verbatim>\<open>os.makedirs\<close> does, and a file on the way is reported with the path of the directory
  that could not be made below it; without \<open>mk\<close>, as for \<^verbatim>\<open>open\<close>, the error names the
  whole path. A new entry comes last in the listing of its directory.
\<close>

fun store :: "bool \<Rightarrow> string \<Rightarrow> string \<Rightarrow> path \<Rightarrow> node \<Rightarrow> node \<Rightarrow> exn + node" where
  "store mk name here [] n t = Inr n"
| "store mk name here (x # p) n (File c) =
     Inl (os_error NotADirectoryError ''[Errno 20] Not a directory''
            (if mk then os_path_join here x else name))"
| "store mk name here (x # p) n (Dir es) =
     (case map_of es x of
        Some sub \<Rightarrow>
          (case store mk name (os_path_join here x) p n sub of
             Inl e \<Rightarrow> Inl e
           | Inr sub' \<Rightarrow> Inr (Dir (AList.update x sub' es)))
      | None \<Rightarrow>
          if p = [] \<or> mk then
            (case store mk name (os_path_join here x) p n (Dir []) of
               Inl e \<Rightarrow> Inl e
             | Inr sub' \<Rightarrow> Inr (Dir (AList.update x sub' es)))
          else Inl (os_error FileNotFoundError ''[Errno 2] No such file or directory'' name))"

text \<open>\<open>modify p f t\<close> replaces the node at \<open>p\<close>, when there is one, by its image under \<open>f\<close>.\<close>

fun modify :: "path \<Rightarrow> (node \<Rightarrow> node) \<Rightarrow> node \<Rightarrow> node" where
  "modify [] f t = f t"
| "modify (x # p) f (File c) = File c"
| "modify (x # p) f (Dir es) =
     (case map_of es x of
        None \<Rightarrow> Dir es
      | Some sub \<Rightarrow> Dir (AList.update x (modify p f sub) es))"

subsection \<open>The world outside and the state of a run\<close>

text \<open>
  The four command lines of the script. \<open>PythonVersion d\<close> is run with \<open>d\<close> as its
  working directory.
\<close>

datatype command =
  PythonVersion string | Pipdeptree | TwoToThreeDry string | TwoToThreeWrite string

fun argv :: "command \<Rightarrow> string list" where
  "argv (PythonVersion d) = [''python'', ''--version'']"
| "argv Pipdeptree = [''pipdeptree'', ''-w'']"
| "argv (TwoToThreeDry file_path) = [''2to3'', ''-n'', file_path]"
| "argv (TwoToThreeWrite d) = [''2to3'', ''--write'', ''--nobackups'', d]"

text \<open>
  How a process ends: with status 0 and its output; with another status, its output and
  the \<^verbatim>\<open>str()\<close> of the \<^verbatim>\<open>CalledProcessError\<close> made from it; or it cannot be started
  and the call raises an exception of the given class and \<^verbatim>\<open>str()\<close>.
\<close>

datatype proc_result = Exit0 string | ExitNonzero string string | SpawnFailed exn_class string

type_synonym environment = "(string \<times> string) list"

text \<open>
  \<open>markers_interpret\<close> is \<^verbatim>\<open>packaging.markers.interpret\<close>, \<open>default_environment\<close> is
  \<^verbatim>\<open>pkg_resources.packaging.markers.default_environment()\<close>, \<open>rewrite\<close> is what
  \<^verbatim>\<open>2to3 --write --nobackups\<close> makes of the directory it is given, \<open>stdin_line\<close> is the
  line the terminal gives to \<^verbatim>\<open>input\<close> (\<open>None\<close> at the end of the input).
\<close>

record world =
  exec :: "command \<Rightarrow> proc_result"
  default_environment :: environment
  markers_interpret :: "environment \<Rightarrow> string \<Rightarrow> exn + pyval"
  rewrite :: "node \<Rightarrow> node"
  stdin_line :: "string option"

datatype event =
  Exec command
| Interpret environment string
| CopyTree string string
| LogInfo string
| LogError string
| Print string
| Prompt string
| SetupLogging

record state =
  fs :: node
  trace :: "event list"

definition emit :: "event \<Rightarrow> state \<Rightarrow> state" where
  "emit e st = st\<lparr>trace := trace st @ [e]\<rparr>"

text \<open>
  \<^verbatim>\<open>subprocess.check_output\<close>: the output when the status is 0, \<^verbatim>\<open>CalledProcessError\<close>
  otherwise. The three commands run through it change no file.
\<close>

definition check_output :: "world \<Rightarrow> command \<Rightarrow> state \<Rightarrow> (exn + string) \<times> state" where
  "check_output w cmd st =
     (case exec w cmd of
        Exit0 out \<Rightarrow> (Inr out, emit (Exec cmd) st)
      | ExitNonzero m out \<Rightarrow> (Inl (CalledProcessError m out), emit (Exec cmd) st)
      | SpawnFailed c m \<Rightarrow> (Inl (Raised c m), emit (Exec cmd) st))"

text \<open>
  \<^verbatim>\<open>subprocess.run\<close> without \<^verbatim>\<open>check\<close>: the status is not looked at. A process that ran
  has rewritten the directory it was given, and nothing else.
\<close>

fun run_effect :: "world \<Rightarrow> command \<Rightarrow> node \<Rightarrow> node" where
  "run_effect w (TwoToThreeWrite d) t = modify (resolve d) (rewrite w) t"
| "run_effect w cmd t = t"

definition subprocess_run :: "world \<Rightarrow> command \<Rightarrow> state \<Rightarrow> (exn + unit) \<times> state" where
  "subprocess_run w cmd st =
     (case exec w cmd of
        SpawnFailed c m \<Rightarrow> (Inl (Raised c m), emit (Exec cmd) st)
      | _ \<Rightarrow> (Inr (), (emit (Exec cmd) st)\<lparr>fs := run_effect w cmd (fs st)\<rparr>))"

text \<open>
  \<^verbatim>\<open>with open(name, "w") as f\<close> and the writes to \<open>f\<close>, as one step: the file is created
  or replaced; a directory cannot be opened.
\<close>

definition write_file :: "string \<Rightarrow> string \<Rightarrow> state \<Rightarrow> (exn + unit) \<times> state" where
  "write_file name text st =
     (case lookup (fs st) (resolve name) of
        Some (Dir es) \<Rightarrow> (Inl (os_error IsADirectoryError ''[Errno 21] Is a directory'' name), st)
      | _ \<Rightarrow>
          (case store False name [] (resolve name) (File text) (fs st) of
             Inl e \<Rightarrow> (Inl e, st)
           | Inr t \<Rightarrow> (Inr (), st\<lparr>fs := t\<rparr>)))"

text \<open>
  \<^verbatim>\<open>shutil.copytree(src, dst)\<close>: the source is listed first, then the destination is
  made with \<^verbatim>\<open>os.makedirs\<close>, which fails when it exists; the copy is the source as it was
  listed. This is the copy of the system for plain paths with a destination that is not
  inside a directory of the source.
\<close>

definition copytree :: "string \<Rightarrow> string \<Rightarrow> state \<Rightarrow> (exn + unit) \<times> state" where
  "copytree src dst st =
     (let st1 = emit (CopyTree src dst) st in
      case lookup (fs st) (resolve src) of
        None \<Rightarrow> (Inl (os_error FileNotFoundError ''[Errno 2] No such file or directory'' src), st1)
      | Some (File c) \<Rightarrow> (Inl (os_error NotADirectoryError ''[Errno 20] Not a directory'' src), st1)
      | Some (Dir es) \<Rightarrow>
          (case lookup (fs st) (resolve dst) of
             Some n \<Rightarrow> (Inl (os_error FileExistsError ''[Errno 17] File exists'' dst), st1)
           | None \<Rightarrow>
               (case store True dst [] (resolve dst) (Dir es) (fs st) of
                  Inl e \<Rightarrow> (Inl e, st1)
                | Inr t \<Rightarrow> (Inr (), st1\<lparr>fs := t\<rparr>))))"

text \<open>\<^verbatim>\<open>input(prompt)\<close>.\<close>

definition input :: "world \<Rightarrow> string \<Rightarrow> state \<Rightarrow> (exn + string) \<times> state" where
  "input w prompt st =
     (case stdin_line w of
        None \<Rightarrow> (Inl (Raised EOFError ''EOF when reading a line''), emit (Prompt prompt) st)
      | Some line \<Rightarrow> (Inr line, emit (Prompt prompt) st))"

subsection \<open>The functions of main.py\<close>

definition setup_logging :: "state \<Rightarrow> state" where
  "setup_logging st = emit SetupLogging st"

definition scan_python_version :: "world \<Rightarrow> string \<Rightarrow> state \<Rightarrow> (exn + string) \<times> state" where
  "scan_python_version w source_directory st =
     (case check_output w (PythonVersion source_directory) st of
        (Inr version_info, st1) \<Rightarrow>
          (case re_search_version version_info of
             None \<Rightarrow>
               (Inl (Raised AttributeError
                  (quote @ ''NoneType'' @ quote @ '' object has no attribute '' @
                   quote @ ''group'' @ quote)), st1)
           | Some python_version \<Rightarrow> (Inr python_version, st1))
      | (Inl (CalledProcessError m out), st1) \<Rightarrow>
          (Inl (Raised RuntimeError (''Failed to determine Python version: '' @ strip out)), st1)
      | (Inl (Raised c m), st1) \<Rightarrow> (Inl (Raised c m), st1))"

definition scan_dependencies ::
  "world \<Rightarrow> state \<Rightarrow> (exn + (string \<times> string) list) \<times> state" where
  "scan_dependencies w st =
     (case check_output w Pipdeptree st of
        (Inr dependency_tree, st1) \<Rightarrow> (Inr (re_findall_dependencies dependency_tree), st1)
      | (Inl e, st1) \<Rightarrow> (Inl e, st1))"

definition is_compatible ::
  "world \<Rightarrow> string \<Rightarrow> string \<Rightarrow> state \<Rightarrow> (exn + pyval) \<times> state" where
  "is_compatible w package_name version st =
     (let package_string = package_name @ ''=='' @ version;
          marker = default_environment w
      in (markers_interpret w marker package_string,
          emit (Interpret marker package_string) st))"

text \<open>
  \<^verbatim>\<open>proposed_changes[file_path] = ...\<close>: a dict keeps the order in which its keys were
  first set.
\<close>

fun dict_set :: "string \<Rightarrow> string \<Rightarrow> (string \<times> string) list \<Rightarrow> (string \<times> string) list" where
  "dict_set k v [] = [(k, v)]"
| "dict_set k v ((k', v') # d) = (if k = k' then (k, v) # d else (k', v') # dict_set k v d)"

text \<open>
  The values \<open>file_path\<close> takes in the two loops of \<^verbatim>\<open>dry_run_2to3\<close>, in order: for every
  triple of the walk, the files whose name ends in \<^verbatim>\<open>.py\<close>, joined to the root.
\<close>

definition python_files :: "node \<Rightarrow> string \<Rightarrow> string list" where
  "python_files t source_directory =
     concat (map (\<lambda>(root, dirs, files).
                    map (os_path_join root)
                      (filter (\<lambda>file_name. endswith file_name ''.py'') files))
                 (os_walk t source_directory))"

text \<open>
  The body of the loops, over these paths. \<^verbatim>\<open>logger\<close> in the handler is the logger of
  the module, which the entry point binds before it calls \<^verbatim>\<open>main\<close>.
\<close>

fun dry_run_files ::
  "world \<Rightarrow> string list \<Rightarrow> (string \<times> string) list \<Rightarrow> state \<Rightarrow>
     (exn + (string \<times> string) list) \<times> state" where
  "dry_run_files w [] proposed_changes st = (Inr proposed_changes, st)"
| "dry_run_files w (file_path # rest) proposed_changes st =
     (case check_output w (TwoToThreeDry file_path) st of
        (Inr proposed_output, st1) \<Rightarrow>
          dry_run_files w rest (dict_set file_path proposed_output proposed_changes) st1
      | (Inl (CalledProcessError m out), st1) \<Rightarrow>
          dry_run_files w rest proposed_changes
            (emit (LogError (''Error during dry run for '' @ file_path @ '': '' @ strip out)) st1)
      | (Inl (Raised c m), st1) \<Rightarrow> (Inl (Raised c m), st1))"

definition changes_text :: "(string \<times> string) list \<Rightarrow> string" where
  "changes_text proposed_changes =
     concat (map (\<lambda>(file_path, changes). ''Changes for '' @ file_path @ '':'' @ nl @ changes @ nl)
                 proposed_changes)"

definition dry_run_2to3 :: "world \<Rightarrow> string \<Rightarrow> state \<Rightarrow> (exn + unit) \<times> state" where
  "dry_run_2to3 w source_directory st =
     (case dry_run_files w (python_files (fs st) source_directory) [] st of
        (Inl e, st1) \<Rightarrow> (Inl e, st1)
      | (Inr proposed_changes, st1) \<Rightarrow>
          write_file ''changes_for_update.log'' (changes_text proposed_changes) st1)"

definition update_to_python_3_9 ::
  "world \<Rightarrow> string \<Rightarrow> string \<Rightarrow> state \<Rightarrow> (exn + unit) \<times> state" where
  "update_to_python_3_9 w source_directory destination_directory st =
     (case copytree source_directory destination_directory st of
        (Inl e, st1) \<Rightarrow> (Inl e, st1)
      | (Inr u, st1) \<Rightarrow> subprocess_run w (TwoToThreeWrite destination_directory) st1)"

text \<open>The loop of \<^verbatim>\<open>main\<close> that collects the incompatible dependencies.\<close>

fun find_incompatible ::
  "world \<Rightarrow> (string \<times> string) list \<Rightarrow> (string \<times> string) list \<Rightarrow> state \<Rightarrow>
     (exn + (string \<times> string) list) \<times> state" where
  "find_incompatible w [] incompatible_dependencies st = (Inr incompatible_dependencies, st)"
| "find_incompatible w ((name, version) # rest) incompatible_dependencies st =
     (case is_compatible w name version st of
        (Inl e, st1) \<Rightarrow> (Inl e, st1)
      | (Inr verdict, st1) \<Rightarrow>
          find_incompatible w rest
            (if \<not> truthy verdict then incompatible_dependencies @ [(name, version)]
             else incompatible_dependencies) st1)"

text \<open>
  Lines 87 to 94: the report. The file is opened first; then every dependency is
  written to it and logged.
\<close>

definition concerns_text :: "(string \<times> string) list \<Rightarrow> string" where
  "concerns_text incompatible_dependencies =
     concat (map (\<lambda>(name, version). name @ ''=='' @ version @ nl) incompatible_dependencies)"

definition report_incompatible ::
  "(string \<times> string) list \<Rightarrow> state \<Rightarrow> (exn + unit) \<times> state" where
  "report_incompatible incompatible_dependencies st =
     (let st1 = emit (LogInfo ''The following dependencies are not compatible with Python 3.9:'') st
      in case write_file ''compatibility-concerns.log''
                (concerns_text incompatible_dependencies) st1 of
           (Inl e, st2) \<Rightarrow> (Inl e, st2)
         | (Inr u, st2) \<Rightarrow>
             (Inr (),
              emit (LogInfo ''Please review the compatibility-concerns.log file for more details.'')
                (foldl (\<lambda>s (name, version). emit (LogInfo (name @ ''=='' @ version)) s)
                   st2 incompatible_dependencies)))"

text \<open>Lines 103 to 112: the prompt and what follows from the answer.\<close>

definition confirm_update ::
  "world \<Rightarrow> string \<Rightarrow> string \<Rightarrow> state \<Rightarrow> (exn + unit) \<times> state" where
  "confirm_update w source_directory destination_directory st =
     (case input w ''Enter 'Y' to proceed with the update or 'N' to cancel: '' st of
        (Inl e, st1) \<Rightarrow> (Inl e, st1)
      | (Inr line, st1) \<Rightarrow>
          (let user_input = lower (strip line) in
           if user_input = ''y'' then
             (case update_to_python_3_9 w source_directory destination_directory st1 of
                (Inl e, st2) \<Rightarrow> (Inl e, st2)
              | (Inr u, st2) \<Rightarrow> (Inr (), emit (LogInfo ''Update to Python 3.9 successful.'') st2))
           else if user_input = ''n'' then (Inr (), emit (LogInfo ''Update canceled.'') st1)
           else (Inr (), emit (LogError ''Invalid input. Update canceled.'') st1)))"

text \<open>Lines 99 to 112: the body of the inner \<^verbatim>\<open>try\<close>.\<close>

definition preview_and_update ::
  "world \<Rightarrow> string \<Rightarrow> string \<Rightarrow> state \<Rightarrow> (exn + unit) \<times> state" where
  "preview_and_update w source_directory destination_directory st =
     (case dry_run_2to3 w source_directory st of
        (Inl e, st1) \<Rightarrow> (Inl e, st1)
      | (Inr u, st1) \<Rightarrow>
          confirm_update w source_directory destination_directory
            (emit (LogInfo
               ''Dry run completed. Proposed changes logged in 'changes_for_update.log'.'') st1))"

text \<open>Lines 79 to 114: the body of the outer \<^verbatim>\<open>try\<close>, with the handler of the inner one.\<close>

definition check_dependencies ::
  "world \<Rightarrow> string \<Rightarrow> string \<Rightarrow> state \<Rightarrow> (exn + unit) \<times> state" where
  "check_dependencies w source_directory destination_directory st =
     (case scan_dependencies w st of
        (Inl e, st1) \<Rightarrow> (Inl e, st1)
      | (Inr dependencies, st1) \<Rightarrow>
          (case find_incompatible w dependencies [] st1 of
             (Inl e, st2) \<Rightarrow> (Inl e, st2)
           | (Inr incompatible_dependencies, st2) \<Rightarrow>
               if incompatible_dependencies \<noteq> [] then
                 report_incompatible incompatible_dependencies st2
               else
                 (case preview_and_update w source_directory destination_directory
                         (emit (LogInfo
                            ''All dependencies are compatible with Python 3.9. Proceeding with the update.'')
                            st2) of
                    (Inl e, st3) \<Rightarrow>
                      if is_Exception e
                      then (Inr (), emit (LogError (''Error during update: '' @ str_of e)) st3)
                      else (Inl e, st3)
                  | (Inr u, st3) \<Rightarrow> (Inr (), st3))))"

definition main :: "world \<Rightarrow> string \<Rightarrow> string \<Rightarrow> state \<Rightarrow> (exn + unit) \<times> state" where
  "main w source_directory destination_directory st =
     (case scan_python_version w source_directory st of
        (Inl e, st1) \<Rightarrow>
          if is_RuntimeError e then (Inr (), emit (LogError (str_of e)) st1) else (Inl e, st1)
      | (Inr current_python_version, st1) \<Rightarrow>
          (let st2 = emit (LogInfo (''Detected Python version: '' @ current_python_version)) st1 in
           if startswith current_python_version ''3.9'' then
             (Inr (), emit (LogInfo ''Python version is already 3.9.x. No need to update.'') st2)
           else
             (case check_dependencies w source_directory destination_directory st2 of
                (Inl e, st3) \<Rightarrow>
                  if is_Exception e
                  then (Inr (), emit (LogError (''Error during dependency scan: '' @ str_of e)) st3)
                  else (Inl e, st3)
              | (Inr u, st3) \<Rightarrow> (Inr (), st3))))"

text \<open>
  The entry point, lines 119 to 129. A result \<open>Inr ()\<close> is a process that ends with
  status 0; \<open>Inl e\<close> is one that ends with the traceback of \<open>e\<close>.
\<close>

definition source_directory :: string where
  "source_directory = ''path_to_source_directory''"

definition destination_directory :: string where
  "destination_directory = ''path_to_destination_directory''"

definition run_script :: "world \<Rightarrow> state \<Rightarrow> (exn + unit) \<times> state" where
  "run_script w st =
     (if \<not> os_path_exists (fs st) source_directory then
        (Inr (), emit (Print (''Source directory '' @ quote @ source_directory @ quote @
                              '' not found.'')) st)
      else if \<not> os_path_exists (fs st) destination_directory then
        (Inr (), emit (Print (''Destination directory '' @ quote @ destination_directory @ quote @
                              '' not found.'')) st)
      else main w source_directory destination_directory (setup_logging st))"

subsection \<open>Notions used in the statements\<close>

text \<open>The events a run has added to the trace of the state it started from.\<close>

definition new_events :: "state \<Rightarrow> state \<Rightarrow> event list" where
  "new_events st st' = drop (length (trace st)) (trace st')"

text \<open>The paths given to \<^verbatim>\<open>2to3 -n\<close> in a trace, in order.\<close>

fun dry_runs :: "event list \<Rightarrow> string list" where
  "dry_runs [] = []"
| "dry_runs (Exec (TwoToThreeDry file_path) # es) = file_path # dry_runs es"
| "dry_runs (e # es) = dry_runs es"

text \<open>An event that copies a tree or runs \<^verbatim>\<open>2to3\<close> in write mode.\<close>

fun is_migration :: "event \<Rightarrow> bool" where
  "is_migration (CopyTree src dst) = True"
| "is_migration (Exec (TwoToThreeWrite d)) = True"
| "is_migration e = False"

definition is_dir :: "node \<Rightarrow> path \<Rightarrow> bool" where
  "is_dir t p = (case lookup t p of Some (Dir es) \<Rightarrow> True | _ \<Rightarrow> False)"

text \<open>
  The files below a directory, each as the list of names that leads to it, in the order
  of the walk: the files of the directory first, then those of its directories.
\<close>

fun files_under :: "node \<Rightarrow> path list" where
  "files_under (File c) = []"
| "files_under (Dir es) =
     map (\<lambda>name. [name]) (filenames es) @
     concat (map (\<lambda>(name, sub). map ((#) name) (files_under sub)) es)"

definition source_files :: "node \<Rightarrow> string \<Rightarrow> path list" where
  "source_files t src =
     (case lookup t (resolve src) of None \<Rightarrow> [] | Some n \<Rightarrow> files_under n)"

text \<open>
  The files of the source tree whose name ends in \<^verbatim>\<open>.py\<close>, and the text of the path of a
  file of the tree: the names joined one by one to the source directory.
\<close>

definition python_source_files :: "node \<Rightarrow> string \<Rightarrow> path list" where
  "python_source_files t src =
     filter (\<lambda>p. endswith (last p) ''.py'') (source_files t src)"

definition path_below :: "string \<Rightarrow> path \<Rightarrow> string" where
  "path_below src p = foldl os_path_join src p"

text \<open>A command that the system can start, whatever its exit status is.\<close>

definition started :: "world \<Rightarrow> command \<Rightarrow> bool" where
  "started w cmd = (case exec w cmd of SpawnFailed c m \<Rightarrow> False | _ \<Rightarrow> True)"

text \<open>A tree in which no directory lists a name twice.\<close>

fun wf_node :: "node \<Rightarrow> bool" where
  "wf_node (File c) = True"
| "wf_node (Dir es) = (distinct (map fst es) \<and> (\<forall>(name, sub) \<in> set es. wf_node sub))"

text \<open>The verdict on one dependency: what the marker evaluator answers for it.\<close>

definition verdict :: "world \<Rightarrow> string \<times> string \<Rightarrow> exn + pyval" where
  "verdict w d = markers_interpret w (default_environment w) (fst d @ ''=='' @ snd d)"

definition judged :: "world \<Rightarrow> string \<times> string \<Rightarrow> bool" where
  "judged w d = (case verdict w d of Inl e \<Rightarrow> False | Inr v \<Rightarrow> True)"

definition incompatible :: "world \<Rightarrow> string \<times> string \<Rightarrow> bool" where
  "incompatible w d = (case verdict w d of Inl e \<Rightarrow> False | Inr v \<Rightarrow> \<not> truthy v)"

subsection \<open>Example runs\<close>

text \<open>
  A working directory with a source tree of two Python files and a text file, an
  empty destination and the log of an earlier preview; an interpreter that reports the
  given text; one dependency; a rewrite tool that accepts \<^verbatim>\<open>a.py\<close> and fails on every
  other file. The verdict of the evaluator and the answer at
  the prompt are parameters.
\<close>

definition demo_tree :: node where
  "demo_tree =
     Dir [(''path_to_source_directory'',
             Dir [(''a.py'', File ''print 1''),
                  (''sub'', Dir [(''b.py'', File ''print 2''), (''notes.txt'', File ''hello'')])]),
          (''path_to_destination_directory'', Dir []),
          (''changes_for_update.log'', File ''stale'')]"

definition demo_exec :: "string \<Rightarrow> command \<Rightarrow> proc_result" where
  "demo_exec version_info cmd =
     (case cmd of
        PythonVersion d \<Rightarrow> Exit0 version_info
      | Pipdeptree \<Rightarrow> Exit0 ''flask==1.0.0''
      | TwoToThreeDry file_path \<Rightarrow>
          if file_path = ''path_to_source_directory/a.py'' then Exit0 ''-print 1''
          else ExitNonzero ''exit status 1'' '' cannot parse ''
      | TwoToThreeWrite d \<Rightarrow> Exit0 [])"

definition demo_world :: "string \<Rightarrow> exn + pyval \<Rightarrow> string \<Rightarrow> world" where
  "demo_world version_info answer line =
     \<lparr>exec = demo_exec version_info,
      default_environment = [(''python_version'', ''3.8'')],
      markers_interpret = (\<lambda>env package_string. answer),
      rewrite = (\<lambda>n. n),
      stdin_line = Some line\<rparr>"

definition demo_state :: state where
  "demo_state = \<lparr>fs = demo_tree, trace = []\<rparr>"

text \<open>A world in which the interpreter cannot be asked for its version.\<close>

definition failing_world :: world where
  "failing_world =
     \<lparr>exec = (\<lambda>cmd. ExitNonzero ''exit status 2'' '' no such option ''),
      default_environment = [],
      markers_interpret = (\<lambda>env package_string. Inr (PyBool True)),
      rewrite = (\<lambda>n. n),
      stdin_line = None\<rparr>"

text \<open>
  A rewrite that turns the \<^verbatim>\<open>print\<close> statement of a file into a call, and a world with
  it in which the user answers \<open>line\<close>.
\<close>

primrec demo_rewrite :: "node \<Rightarrow> node" where
  "demo_rewrite (File c) =
     File (if take 6 c = ''print '' then ''print('' @ drop 6 c @ '')'' else c)"
| "demo_rewrite (Dir es) = Dir (map (map_prod id demo_rewrite) es)"

definition porting_world :: "string \<Rightarrow> world" where
  "porting_world line =
     \<lparr>exec = demo_exec ''Python 3.8.10'',
      default_environment = [(''python_version'', ''3.8'')],
      markers_interpret = (\<lambda>env package_string. Inr (PyBool True)),
      rewrite = demo_rewrite,
      stdin_line = Some line\<rparr>"

section \<open>Properties\<close>

subsection \<open>Traces\<close>

lemma trace_emit [simp]: "trace (emit e st) = trace st @ [e]"
  by (simp add: emit_def)

lemma fs_emit [simp]: "fs (emit e st) = fs st"
  by (simp add: emit_def)

subsection \<open>The entry point\<close>

text \<open>
  C9. When the source directory or the destination directory does not exist, the
  script prints one message and ends with status 0: the state it leaves has the same
  files and one more event, the message. The logger is not set up and nothing is
  logged, since no such event is added.
\<close>

theorem run_script_missing_directory:
  assumes "\<not> os_path_exists (fs st) source_directory \<or>
           \<not> os_path_exists (fs st) destination_directory"
  shows "run_script w st =
           (Inr (),
            st\<lparr>trace := trace st @
               [Print (if \<not> os_path_exists (fs st) source_directory
                       then ''Source directory 'path_to_source_directory' not found.''
                       else ''Destination directory 'path_to_destination_directory' not found.'')]\<rparr>)"
  using assms
  by (auto simp add: run_script_def emit_def quote_def source_directory_def
        destination_directory_def)

theorem run_script_missing_directory_witness:
  "run_script failing_world \<lparr>fs = Dir [(''path_to_source_directory'', Dir [])], trace = []\<rparr> =
     (Inr (),
      \<lparr>fs = Dir [(''path_to_source_directory'', Dir [])],
       trace = [Print ''Destination directory 'path_to_destination_directory' not found.'']\<rparr>)"
proof -
  let ?st = "\<lparr>fs = Dir [(''path_to_source_directory'', Dir [])], trace = []\<rparr>"
  have src: "os_path_exists (fs ?st) source_directory"
    by (simp add: os_path_exists_def source_directory_def resolve_def resolve_step_def)
  have dst: "\<not> os_path_exists (fs ?st) destination_directory"
    by (simp add: os_path_exists_def destination_directory_def resolve_def resolve_step_def)
  from dst have "\<not> os_path_exists (fs ?st) source_directory \<or>
           \<not> os_path_exists (fs ?st) destination_directory" by simp
  from run_script_missing_directory [OF this, of failing_world] src
  show ?thesis by simp
qed

subsection \<open>Calls to external programs\<close>

lemma check_output_Exit0:
  "exec w cmd = Exit0 out \<Longrightarrow> check_output w cmd st = (Inr out, emit (Exec cmd) st)"
  by (simp add: check_output_def)

lemma check_output_ExitNonzero:
  "exec w cmd = ExitNonzero m out \<Longrightarrow>
   check_output w cmd st = (Inl (CalledProcessError m out), emit (Exec cmd) st)"
  by (simp add: check_output_def)

lemma check_output_SpawnFailed:
  "exec w cmd = SpawnFailed c m \<Longrightarrow> check_output w cmd st = (Inl (Raised c m), emit (Exec cmd) st)"
  by (simp add: check_output_def)

lemma scan_python_version_found:
  "exec w (PythonVersion src) = Exit0 out \<Longrightarrow> re_search_version out = Some v \<Longrightarrow>
   scan_python_version w src st = (Inr v, emit (Exec (PythonVersion src)) st)"
  by (simp add: scan_python_version_def check_output_Exit0)

subsection \<open>The version probe\<close>

text \<open>
  C7. When the interpreter ends with a status other than 0, the probe raises a
  \<open>RuntimeError\<close> with the output of the process; \<open>main\<close> catches it, logs it as an
  error and returns: nothing else is run. When the interpreter ends with status 0 and
  its output has no match of the pattern, the access to the group raises an
  \<open>AttributeError\<close>, which neither the handler of the probe nor the one of \<open>main\<close>
  catches: \<open>main\<close> ends with that exception and logs nothing.
\<close>

theorem scan_python_version_failures:
  "(exec w (PythonVersion src) = ExitNonzero m out \<longrightarrow>
      scan_python_version w src st =
        (Inl (Raised RuntimeError (''Failed to determine Python version: '' @ strip out)),
         emit (Exec (PythonVersion src)) st) \<and>
      main w src dst st =
        (Inr (),
         emit (LogError (''Failed to determine Python version: '' @ strip out))
           (emit (Exec (PythonVersion src)) st))) \<and>
   (exec w (PythonVersion src) = Exit0 out \<and> re_search_version out = None \<longrightarrow>
      scan_python_version w src st =
        (Inl (Raised AttributeError (quote @ ''NoneType'' @ quote @ '' object has no attribute '' @ quote @ ''group'' @ quote)),
         emit (Exec (PythonVersion src)) st) \<and>
      main w src dst st =
        (Inl (Raised AttributeError (quote @ ''NoneType'' @ quote @ '' object has no attribute '' @ quote @ ''group'' @ quote)),
         emit (Exec (PythonVersion src)) st))"
  by (simp add: main_def scan_python_version_def check_output_Exit0 check_output_ExitNonzero)

theorem scan_python_version_failures_witness:
  "main failing_world ''src'' ''dst'' demo_state =
     (Inr (),
      demo_state\<lparr>trace :=
        [Exec (PythonVersion ''src''),
         LogError ''Failed to determine Python version: no such option'']\<rparr>) \<and>
   main (demo_world ''python: command output'' (Inr (PyBool True)) ''y'') ''src'' ''dst'' demo_state =
     (Inl (Raised AttributeError
        (quote @ ''NoneType'' @ quote @ '' object has no attribute '' @ quote @ ''group'' @ quote)),
      demo_state\<lparr>trace := [Exec (PythonVersion ''src'')]\<rparr>)"
proof -
  have a: "exec failing_world (PythonVersion ''src'') = ExitNonzero ''exit status 2'' '' no such option ''"
    by (simp add: failing_world_def)
  have s: "strip '' no such option '' = ''no such option''"
    by code_simp
  have b: "exec (demo_world ''python: command output'' (Inr (PyBool True)) ''y'') (PythonVersion ''src'') =
             Exit0 ''python: command output'' \<and>
           re_search_version ''python: command output'' = None"
    by (simp add: demo_world_def demo_exec_def startswith_def)
  from scan_python_version_failures
         [of failing_world "''src''" "''exit status 2''" "'' no such option ''" demo_state "''dst''"]
       scan_python_version_failures
         [of "demo_world ''python: command output'' (Inr (PyBool True)) ''y''" "''src''" _
             "''python: command output''" demo_state "''dst''"]
       a b s
  show ?thesis by (simp add: emit_def demo_state_def)
qed



subsection \<open>The events of the copy and of the rewrite\<close>

lemma copytree_trace:
  "trace (snd (copytree src dst st)) = trace st @ [CopyTree src dst]"
  by (simp add: copytree_def Let_def split: option.splits node.splits sum.splits)

lemma subprocess_run_trace:
  "trace (snd (subprocess_run w cmd st)) = trace st @ [Exec cmd]"
  by (simp add: subprocess_run_def split: proc_result.splits)

lemma update_to_python_3_9_trace:
  "\<exists>es. trace (snd (update_to_python_3_9 w src dst st)) = trace st @ CopyTree src dst # es \<and>
        set es \<subseteq> {Exec (TwoToThreeWrite dst)}"
proof (cases "copytree src dst st")
  case (Pair r st1)
  with copytree_trace [of src dst st] have t: "trace st1 = trace st @ [CopyTree src dst]"
    by simp
  show ?thesis
  proof (cases r)
    case (Inl e)
    with Pair t show ?thesis by (simp add: update_to_python_3_9_def)
  next
    case (Inr u)
    with Pair t subprocess_run_trace [of w "TwoToThreeWrite dst" st1]
    show ?thesis by (simp add: update_to_python_3_9_def)
  qed
qed

subsection \<open>The guard on the version\<close>

text \<open>
  C5. The guard is \<^verbatim>\<open>startswith("3.9")\<close>. An interpreter that reports 3.90.1 is not a
  3.9.x, yet the run ends as for 3.9.x: it logs that the version is already 3.9.x and
  does not scan the dependencies.
\<close>

theorem main_version_3_90:
  "main (demo_world ''Python 3.90.1'' (Inr (PyBool True)) ''y'')
        ''path_to_source_directory'' ''path_to_destination_directory'' demo_state =
     (Inr (),
      demo_state\<lparr>trace :=
         [Exec (PythonVersion ''path_to_source_directory''),
          LogInfo ''Detected Python version: 3.90.1'',
          LogInfo ''Python version is already 3.9.x. No need to update.'']\<rparr>)"
  by code_simp

text \<open>
  Every version that starts with 3.9, and so every 3.9.x, ends the run in this way.
\<close>

lemma main_already_target:
  assumes "exec w (PythonVersion src) = Exit0 version_info"
    and "re_search_version version_info = Some v"
    and "startswith v ''3.9''"
  shows "main w src dst st =
           (Inr (),
            st\<lparr>trace := trace st @
               [Exec (PythonVersion src),
                LogInfo (''Detected Python version: '' @ v),
                LogInfo ''Python version is already 3.9.x. No need to update.'']\<rparr>)"
  using assms(3)
  by (simp add: main_def scan_python_version_found [OF assms(1) assms(2)] emit_def Let_def)

subsection \<open>The migration on an existing destination\<close>

text \<open>
  C2. The entry point goes on only when the destination exists, and the copy of the tree
  fails when the destination exists. In the run below the interpreter is 3.8.10, the
  dependency is compatible and the answer is \<open>y\<close>: the script ends with status 0, the
  destination is still the empty directory it was, the tree copy was started and no
  \<^verbatim>\<open>2to3\<close> was run in write mode, and the last event is the error that the copy raised.
\<close>

theorem run_script_existing_destination:
  "fst (run_script (demo_world ''Python 3.8.10'' (Inr (PyBool True)) ''y'') demo_state) = Inr () \<and>
   lookup (fs (snd (run_script (demo_world ''Python 3.8.10'' (Inr (PyBool True)) ''y'') demo_state)))
     [''path_to_destination_directory''] = Some (Dir []) \<and>
   filter is_migration
     (trace (snd (run_script (demo_world ''Python 3.8.10'' (Inr (PyBool True)) ''y'') demo_state))) =
     [CopyTree ''path_to_source_directory'' ''path_to_destination_directory''] \<and>
   last (trace (snd (run_script (demo_world ''Python 3.8.10'' (Inr (PyBool True)) ''y'') demo_state))) =
     LogError (''Error during update: [Errno 17] File exists: 'path_to_destination_directory'' @ quote)"
  by code_simp

text \<open>
  In every state in which the destination exists, the migration raises after the call to
  the copy: it has changed no file and has not run \<^verbatim>\<open>2to3\<close>.
\<close>

lemma update_on_existing_destination:
  "lookup (fs st) (resolve dst) = Some n \<Longrightarrow>
   \<exists>e. update_to_python_3_9 w src dst st = (Inl e, emit (CopyTree src dst) st)"
  by (simp add: update_to_python_3_9_def copytree_def Let_def split: option.splits node.splits)

subsection \<open>Paths that do not meet\<close>

lemma lookup_append:
  "lookup t (p @ q) = (case lookup t p of None \<Rightarrow> None | Some n \<Rightarrow> lookup n q)"
proof (induction p arbitrary: t)
  case Nil
  show ?case by simp
next
  case (Cons x p)
  show ?case
  proof (cases t)
    case (File c)
    then show ?thesis by simp
  next
    case (Dir es)
    with Cons show ?thesis by (simp split: option.splits)
  qed
qed

lemma lookup_below_missing:
  "lookup t p = None \<Longrightarrow> prefix p q \<Longrightarrow> lookup t q = None"
  by (auto simp add: prefix_def lookup_append)

lemma lookup_below_file:
  "lookup t p = Some (File c) \<Longrightarrow> prefix p q \<Longrightarrow> p \<noteq> q \<Longrightarrow> lookup t q = None"
proof -
  assume a: "lookup t p = Some (File c)" and b: "prefix p q" and c: "p \<noteq> q"
  from b obtain r where r: "q = p @ r" by (auto simp add: prefix_def)
  with c have "r \<noteq> []" by auto
  then obtain x r' where "r = x # r'" by (cases r) auto
  with a r show ?thesis by (simp add: lookup_append)
qed

lemma store_lookup:
  "store mk name here p n t = Inr t' \<Longrightarrow> lookup t' p = Some n"
proof (induction p arbitrary: t t' here)
  case Nil
  then show ?case by simp
next
  case (Cons x p)
  show ?case
  proof (cases t)
    case (File c)
    with Cons.prems show ?thesis by simp
  next
    case (Dir es)
    with Cons.prems Cons.IH show ?thesis
      by (auto simp add: update_conv' split: option.splits sum.splits if_splits)
  qed
qed

lemma store_frame:
  "store mk name here p n t = Inr t' \<Longrightarrow> \<not> prefix q p \<Longrightarrow> \<not> prefix p q \<Longrightarrow>
   lookup t' q = lookup t q"
proof (induction p arbitrary: t t' q here)
  case Nil
  then show ?case by simp
next
  case (Cons x p)
  from Cons.prems(2) obtain y q' where q: "q = y # q'" by (cases q) auto
  show ?case
  proof (cases t)
    case (File c)
    with Cons.prems show ?thesis by simp
  next
    case (Dir es)
    show ?thesis
    proof (cases "y = x")
      case False
      with Cons.prems(1) Dir q show ?thesis
        by (auto simp add: update_conv' split: option.splits sum.splits if_splits)
    next
      case True
      with Cons.prems q have np: "\<not> prefix q' p" "\<not> prefix p q'" by auto
      then have q'ne: "q' \<noteq> []" by auto
      show ?thesis
      proof (cases "map_of es x")
        case None
        with Cons.prems(1) Dir obtain sub' where
          s: "store mk name (os_path_join here x) p n (Dir []) = Inr sub'" and
          t': "t' = Dir (AList.update x sub' es)"
          by (auto split: sum.splits if_splits)
        from Cons.IH [OF s np] q'ne have "lookup sub' q' = None"
          by (cases q') auto
        with None Dir q True t' show ?thesis by (simp add: update_conv')
      next
        case (Some sub)
        with Cons.prems(1) Dir obtain sub' where
          s: "store mk name (os_path_join here x) p n sub = Inr sub'" and
          t': "t' = Dir (AList.update x sub' es)"
          by (auto split: sum.splits)
        from Cons.IH [OF s np] Some Dir q True t' show ?thesis by (simp add: update_conv')
      qed
    qed
  qed
qed

lemma modify_frame:
  "\<not> prefix q p \<Longrightarrow> \<not> prefix p q \<Longrightarrow> lookup (modify p f t) q = lookup t q"
proof (induction p arbitrary: t q)
  case Nil
  then show ?case by simp
next
  case (Cons x p)
  from Cons.prems(1) obtain y q' where q: "q = y # q'" by (cases q) auto
  show ?case
  proof (cases t)
    case (File c)
    then show ?thesis by simp
  next
    case (Dir es)
    show ?thesis
    proof (cases "y = x")
      case False
      with Dir q show ?thesis by (simp add: update_conv' split: option.splits)
    next
      case True
      with Cons.prems q have np: "\<not> prefix q' p" "\<not> prefix p q'" by auto
      from Cons.IH [OF np] Dir q True show ?thesis
        by (simp add: update_conv' split: option.splits)
    qed
  qed
qed

subsection \<open>What each function leaves in place\<close>

lemma check_output_fs: "check_output w cmd st = (r, st') \<Longrightarrow> fs st' = fs st"
  by (auto simp add: check_output_def split: proc_result.splits)

lemma write_file_frame:
  assumes "write_file name text st = (r, st')" and "\<not> prefix q (resolve name)"
  shows "lookup (fs st') q = lookup (fs st) q"
proof (cases r)
  case (Inl e)
  with assms(1) have "st' = st"
    by (auto simp add: write_file_def split: option.splits node.splits sum.splits)
  then show ?thesis by simp
next
  case (Inr u)
  with assms(1) obtain t where
    t: "store False name [] (resolve name) (File text) (fs st) = Inr t" and st': "fs st' = t" and
    nd: "\<forall>es. lookup (fs st) (resolve name) \<noteq> Some (Dir es)"
    by (auto simp add: write_file_def split: option.splits node.splits sum.splits)
  show ?thesis
  proof (cases "prefix (resolve name) q")
    case False
    with store_frame [OF t assms(2)] st' show ?thesis by simp
  next
    case True
    from assms(2) have ne: "resolve name \<noteq> q" by auto
    have before: "lookup (fs st) q = None"
    proof (cases "lookup (fs st) (resolve name)")
      case None
      from None True show ?thesis by (rule lookup_below_missing)
    next
      case (Some n)
      with nd obtain c where "n = File c" by (cases n) auto
      with Some True ne show ?thesis by (simp add: lookup_below_file)
    qed
    from store_lookup [OF t] True ne have "lookup t q = None"
      by (rule lookup_below_file)
    with before st' show ?thesis by simp
  qed
qed

lemma update_to_python_3_9_frame:
  assumes "update_to_python_3_9 w src dst st = (r, st')"
    and "\<not> prefix (resolve src) (resolve dst)"
  shows "lookup (fs st') (resolve src) = lookup (fs st) (resolve src)"
proof (cases "copytree src dst st")
  case (Pair r1 st1)
  show ?thesis
  proof (cases r1)
    case (Inl e)
    with Pair have "fs st1 = fs st"
      by (auto simp add: copytree_def Let_def split: option.splits node.splits sum.splits)
    with Pair Inl assms(1) show ?thesis by (simp add: update_to_python_3_9_def)
  next
    case (Inr u)
    with Pair obtain es t where
      src: "lookup (fs st) (resolve src) = Some (Dir es)" and
      dst: "lookup (fs st) (resolve dst) = None" and
      t: "store True dst [] (resolve dst) (Dir es) (fs st) = Inr t" and
      st1: "fs st1 = t"
      by (auto simp add: copytree_def Let_def split: option.splits node.splits sum.splits)
    from src dst have np: "\<not> prefix (resolve dst) (resolve src)"
      using lookup_below_missing by fastforce
    from store_frame [OF t assms(2) np] st1
    have copy: "lookup (fs st1) (resolve src) = lookup (fs st) (resolve src)" by simp
    from Pair Inr assms(1) have run: "subprocess_run w (TwoToThreeWrite dst) st1 = (r, st')"
      by (simp add: update_to_python_3_9_def)
    have "lookup (fs st') (resolve src) = lookup (fs st1) (resolve src)"
    proof (cases "exec w (TwoToThreeWrite dst)")
      case (SpawnFailed c m)
      with run show ?thesis by (auto simp add: subprocess_run_def)
    next
      case (Exit0 out)
      with run have "fs st' = modify (resolve dst) (rewrite w) (fs st1)"
        by (auto simp add: subprocess_run_def)
      with modify_frame [OF assms(2) np] show ?thesis by simp
    next
      case (ExitNonzero m out)
      with run have "fs st' = modify (resolve dst) (rewrite w) (fs st1)"
        by (auto simp add: subprocess_run_def)
      with modify_frame [OF assms(2) np] show ?thesis by simp
    qed
    with copy show ?thesis by simp
  qed
qed

lemma dry_run_files_fs:
  "dry_run_files w files pc st = (r, st') \<Longrightarrow> fs st' = fs st"
proof (induction files arbitrary: pc st)
  case Nil
  then show ?case by simp
next
  case (Cons file_path rest)
  show ?case
  proof (cases "exec w (TwoToThreeDry file_path)")
    case (Exit0 out)
    with Cons.prems have
      "dry_run_files w rest (dict_set file_path out pc) (emit (Exec (TwoToThreeDry file_path)) st) = (r, st')"
      by (simp add: check_output_def)
    from Cons.IH [OF this] show ?thesis by simp
  next
    case (ExitNonzero m out)
    with Cons.prems have
      "dry_run_files w rest pc
         (emit (LogError (''Error during dry run for '' @ file_path @ '': '' @ strip out))
            (emit (Exec (TwoToThreeDry file_path)) st)) = (r, st')"
      by (simp add: check_output_def)
    from Cons.IH [OF this] show ?thesis by simp
  next
    case (SpawnFailed c m)
    with Cons.prems show ?thesis
      by (auto simp add: check_output_def)
  qed
qed

lemma dry_run_2to3_frame:
  assumes "dry_run_2to3 w src st = (r, st')"
    and "\<not> prefix q (resolve ''changes_for_update.log'')"
  shows "lookup (fs st') q = lookup (fs st) q"
proof (cases "dry_run_files w (python_files (fs st) src) [] st")
  case (Pair r1 st1)
  from dry_run_files_fs [OF Pair] have same: "fs st1 = fs st" .
  show ?thesis
  proof (cases r1)
    case (Inl e)
    with Pair assms(1) same show ?thesis by (simp add: dry_run_2to3_def)
  next
    case (Inr pc)
    with Pair assms(1) have "write_file ''changes_for_update.log'' (changes_text pc) st1 = (r, st')"
      by (simp add: dry_run_2to3_def)
    from write_file_frame [OF this assms(2)] same show ?thesis by simp
  qed
qed

lemma confirm_update_frame:
  assumes "confirm_update w src dst st = (r, st')"
    and "\<not> prefix (resolve src) (resolve dst)"
  shows "lookup (fs st') (resolve src) = lookup (fs st) (resolve src)"
proof (cases "stdin_line w")
  case None
  with assms(1) show ?thesis by (auto simp add: confirm_update_def input_def)
next
  case (Some line)
  let ?st1 = "emit (Prompt ''Enter 'Y' to proceed with the update or 'N' to cancel: '') st"
  show ?thesis
  proof (cases "lower (strip line) = ''y''")
    case False
    with Some assms(1) show ?thesis
      by (auto simp add: confirm_update_def input_def Let_def split: if_splits)
  next
    case True
    obtain r2 st2 where u: "update_to_python_3_9 w src dst ?st1 = (r2, st2)"
      by (cases "update_to_python_3_9 w src dst ?st1")
    from update_to_python_3_9_frame [OF u assms(2)]
    have "lookup (fs st2) (resolve src) = lookup (fs st) (resolve src)" by simp
    with True Some assms(1) u show ?thesis
      by (cases r2) (auto simp add: confirm_update_def input_def Let_def)
  qed
qed

lemma find_incompatible_fs:
  "find_incompatible w deps acc st = (r, st') \<Longrightarrow> fs st' = fs st"
proof (induction deps arbitrary: acc st)
  case Nil
  then show ?case by simp
next
  case (Cons d deps)
  obtain name version where d: "d = (name, version)" by (cases d)
  show ?case
  proof (cases "markers_interpret w (default_environment w) (name @ ''=='' @ version)")
    case (Inl e)
    with Cons.prems d show ?thesis by (auto simp add: is_compatible_def Let_def)
  next
    case (Inr v)
    with Cons.prems d obtain acc' where
      "find_incompatible w deps acc'
         (emit (Interpret (default_environment w) (name @ ''=='' @ version)) st) = (r, st')"
      by (auto simp add: is_compatible_def Let_def split: if_splits)
    from Cons.IH [OF this] show ?thesis by simp
  qed
qed

lemma foldl_emit_fs:
  "fs (foldl (\<lambda>s (name, version). emit (f name version) s) st xs) = fs st"
  by (induction xs arbitrary: st) (auto split: prod.splits)

lemma foldl_emit_trace:
  "trace (foldl (\<lambda>s (name, version). emit (f name version) s) st xs) =
     trace st @ map (\<lambda>(name, version). f name version) xs"
  by (induction xs arbitrary: st) (auto split: prod.splits)

lemma report_incompatible_frame:
  assumes "report_incompatible inc st = (r, st')"
    and "\<not> prefix q (resolve ''compatibility-concerns.log'')"
  shows "lookup (fs st') q = lookup (fs st) q"
proof -
  let ?st1 = "emit (LogInfo ''The following dependencies are not compatible with Python 3.9:'') st"
  obtain r2 st2 where wf: "write_file ''compatibility-concerns.log'' (concerns_text inc) ?st1 = (r2, st2)"
    by (cases "write_file ''compatibility-concerns.log'' (concerns_text inc) ?st1")
  from write_file_frame [OF wf assms(2)] have "lookup (fs st2) q = lookup (fs st) q" by simp
  with assms(1) wf show ?thesis
    by (cases r2) (auto simp add: report_incompatible_def Let_def foldl_emit_fs)
qed

lemma preview_and_update_frame:
  assumes "preview_and_update w src dst st = (r, st')"
    and "\<not> prefix (resolve src) (resolve dst)"
    and "\<not> prefix (resolve src) (resolve ''changes_for_update.log'')"
  shows "lookup (fs st') (resolve src) = lookup (fs st) (resolve src)"
proof -
  obtain r1 st1 where d: "dry_run_2to3 w src st = (r1, st1)"
    by (cases "dry_run_2to3 w src st")
  from dry_run_2to3_frame [OF d assms(3)]
  have one: "lookup (fs st1) (resolve src) = lookup (fs st) (resolve src)" .
  show ?thesis
  proof (cases r1)
    case (Inl e)
    with d assms(1) one show ?thesis by (simp add: preview_and_update_def)
  next
    case (Inr u)
    with d assms(1) have
      "confirm_update w src dst
         (emit (LogInfo ''Dry run completed. Proposed changes logged in 'changes_for_update.log'.'')
            st1) = (r, st')"
      by (simp add: preview_and_update_def)
    from confirm_update_frame [OF this assms(2)] one show ?thesis by simp
  qed
qed

lemma check_dependencies_frame:
  assumes "check_dependencies w src dst st = (r, st')"
    and "\<not> prefix (resolve src) (resolve dst)"
    and "\<not> prefix (resolve src) (resolve ''changes_for_update.log'')"
    and "\<not> prefix (resolve src) (resolve ''compatibility-concerns.log'')"
  shows "lookup (fs st') (resolve src) = lookup (fs st) (resolve src)"
proof -
  obtain r1 st1 where c: "check_output w Pipdeptree st = (r1, st1)"
    by (cases "check_output w Pipdeptree st")
  from check_output_fs [OF c] have one: "fs st1 = fs st" .
  show ?thesis
  proof (cases r1)
    case (Inl e)
    with c assms(1) one show ?thesis
      by (simp add: check_dependencies_def scan_dependencies_def)
  next
    case (Inr dependency_tree)
    obtain r2 st2 where
      f: "find_incompatible w (re_findall_dependencies dependency_tree) [] st1 = (r2, st2)"
      by (cases "find_incompatible w (re_findall_dependencies dependency_tree) [] st1")
    from find_incompatible_fs [OF f] one have two: "fs st2 = fs st" by simp
    show ?thesis
    proof (cases r2)
      case (Inl e)
      with Inr c f assms(1) two show ?thesis
        by (simp add: check_dependencies_def scan_dependencies_def)
    next
      case inc: (Inr incompatible_dependencies)
      show ?thesis
      proof (cases "incompatible_dependencies = []")
        case False
        with inc Inr c f assms(1) have
          "report_incompatible incompatible_dependencies st2 = (r, st')"
          by (simp add: check_dependencies_def scan_dependencies_def)
        from report_incompatible_frame [OF this assms(4)] two show ?thesis by simp
      next
        case True
        let ?st3 = "emit (LogInfo
            ''All dependencies are compatible with Python 3.9. Proceeding with the update.'') st2"
        obtain r4 st4 where p: "preview_and_update w src dst ?st3 = (r4, st4)"
          by (cases "preview_and_update w src dst ?st3")
        from preview_and_update_frame [OF p assms(2) assms(3)] two
        have "lookup (fs st4) (resolve src) = lookup (fs st) (resolve src)" by simp
        with True inc Inr c f assms(1) p show ?thesis
          by (cases r4)
            (auto simp add: check_dependencies_def scan_dependencies_def split: if_splits)
      qed
    qed
  qed
qed

lemma scan_python_version_fs:
  "scan_python_version w src st = (r, st') \<Longrightarrow> fs st' = fs st"
  by (auto simp add: scan_python_version_def check_output_def
        split: proc_result.splits option.splits)

lemma resolve_changes_log: "resolve ''changes_for_update.log'' = [''changes_for_update.log'']"
  by code_simp

lemma resolve_concerns_log:
  "resolve ''compatibility-concerns.log'' = [''compatibility-concerns.log'']"
  by code_simp

lemma main_source_frame:
  assumes "\<not> prefix (resolve src) (resolve dst)"
    and "\<not> prefix (resolve src) [''changes_for_update.log'']"
    and "\<not> prefix (resolve src) [''compatibility-concerns.log'']"
  shows "lookup (fs (snd (main w src dst st))) (resolve src) = lookup (fs st) (resolve src)"
proof -
  obtain r1 st1 where s: "scan_python_version w src st = (r1, st1)"
    by (cases "scan_python_version w src st")
  from scan_python_version_fs [OF s] have one: "fs st1 = fs st" .
  show ?thesis
  proof (cases r1)
    case (Inl e)
    with s one show ?thesis by (simp add: main_def)
  next
    case (Inr v)
    let ?st2 = "emit (LogInfo (''Detected Python version: '' @ v)) st1"
    obtain r3 st3 where c: "check_dependencies w src dst ?st2 = (r3, st3)"
      by (cases "check_dependencies w src dst ?st2")
    from check_dependencies_frame [OF c assms(1)] assms(2) assms(3) one
    have "lookup (fs st3) (resolve src) = lookup (fs st) (resolve src)"
      by (simp add: resolve_changes_log resolve_concerns_log)
    with Inr s one c show ?thesis
      by (cases r3) (auto simp add: main_def Let_def)
  qed
qed

subsection \<open>The confirmation and the migration it starts\<close>

lemma modify_lookup:
  "lookup t p = Some n \<Longrightarrow> lookup (modify p f t) p = Some (f n)"
proof (induction p arbitrary: t)
  case Nil
  then show ?case by simp
next
  case (Cons x p)
  show ?case
  proof (cases t)
    case (File c)
    with Cons.prems show ?thesis by simp
  next
    case (Dir es)
    with Cons.prems obtain sub where sub: "map_of es x = Some sub" "lookup sub p = Some n"
      by (auto split: option.splits)
    with Dir Cons.IH [OF sub(2)] show ?thesis
      by (simp add: update_conv')
  qed
qed

lemma store_makedirs:
  "is_dir t (butlast p) \<Longrightarrow> p \<noteq> [] \<Longrightarrow> \<exists>t'. store True name here p n t = Inr t'"
proof (induction p arbitrary: t here)
  case Nil
  then show ?case by simp
next
  case (Cons x p)
  from Cons.prems(1) obtain es where t: "t = Dir es"
    by (cases t; cases p) (simp_all add: is_dir_def)
  show ?case
  proof (cases "p = []")
    case True
    with t show ?thesis by (simp split: option.splits)
  next
    case False
    with Cons.prems(1) t obtain sub where sub: "map_of es x = Some sub" "is_dir sub (butlast p)"
      by (auto simp add: is_dir_def split: option.splits)
    from Cons.IH [OF sub(2) False, of "os_path_join here x"] obtain t' where
      "store True name (os_path_join here x) p n sub = Inr t'" by (elim exE)
    with t sub show ?thesis by simp
  qed
qed

lemma update_to_python_3_9_fresh:
  assumes "lookup (fs st) (resolve src) = Some (Dir es)"
    and "lookup (fs st) (resolve dst) = None"
    and "is_dir (fs st) (butlast (resolve dst))"
    and "started w (TwoToThreeWrite dst)"
  shows "\<exists>t. update_to_python_3_9 w src dst st =
               (Inr (), \<lparr>fs = t, trace = trace st @ [CopyTree src dst, Exec (TwoToThreeWrite dst)]\<rparr>) \<and>
             lookup t (resolve dst) = Some (rewrite w (Dir es))"
proof -
  from assms(2) have ne: "resolve dst \<noteq> []"
    by (cases "resolve dst") simp_all
  from store_makedirs [OF assms(3) ne, of dst "[]" "Dir es"] obtain t1 where
    t1: "store True dst [] (resolve dst) (Dir es) (fs st) = Inr t1" by (elim exE)
  from store_lookup [OF t1] have l1: "lookup t1 (resolve dst) = Some (Dir es)" .
  have c: "copytree src dst st = (Inr (), (emit (CopyTree src dst) st)\<lparr>fs := t1\<rparr>)"
    using assms(1) assms(2) t1 by (simp add: copytree_def Let_def)
  have r: "subprocess_run w (TwoToThreeWrite dst) ((emit (CopyTree src dst) st)\<lparr>fs := t1\<rparr>) =
             (Inr (), \<lparr>fs = modify (resolve dst) (rewrite w) t1,
                       trace = trace st @ [CopyTree src dst, Exec (TwoToThreeWrite dst)]\<rparr>)"
    using assms(4) by (simp add: subprocess_run_def started_def emit_def split: proc_result.splits)
  have "update_to_python_3_9 w src dst st =
          (Inr (), \<lparr>fs = modify (resolve dst) (rewrite w) t1,
                    trace = trace st @ [CopyTree src dst, Exec (TwoToThreeWrite dst)]\<rparr>)"
    by (simp add: update_to_python_3_9_def c r)
  with modify_lookup [OF l1, of "rewrite w"] show ?thesis
    by (intro exI conjI)
qed

text \<open>
  C4. At the prompt, the answers \<open>Y\<close>, \<open>y\<close> and \<open>Y\<close> between blanks run the migration:
  what follows the prompt is the run of \<open>update_to_python_3_9\<close> on the source and the
  destination, which begins with the copy of the tree; when it returns, the message of
  success is logged, and when it raises, its exception is passed on. For plain paths,
  with a source that is a directory, a destination that does not exist yet, lies
  outside the source and is to be made in an existing directory, and a \<^verbatim>\<open>2to3\<close> that
  can be started, the run returns: its events are the prompt, the copy, \<^verbatim>\<open>2to3 --write\<close>
  on the destination and the message of success; the destination then holds the
  rewritten copy of the source, and the source is as it was. The answers \<open>N\<close> and \<open>n\<close>
  add the message of cancellation, logged as information, and nothing else: no file is
  changed and no tree copied. Any answer that is neither \<open>y\<close> nor \<open>n\<close> after
  \<^verbatim>\<open>strip().lower()\<close> adds the message of the invalid input, logged as an error, and
  nothing else.
\<close>

theorem confirm_update_answers:
  assumes "stdin_line w = Some line"
  shows "(line \<in> {''Y'', ''y'', '' Y ''} \<longrightarrow>
            confirm_update w src dst st =
              (case update_to_python_3_9 w src dst
                      (emit (Prompt ''Enter 'Y' to proceed with the update or 'N' to cancel: '') st) of
                 (Inl e, st2) \<Rightarrow> (Inl e, st2)
               | (Inr u, st2) \<Rightarrow>
                   (Inr (), emit (LogInfo ''Update to Python 3.9 successful.'') st2)) \<and>
            (\<exists>es. trace (snd (confirm_update w src dst st)) =
                    trace st @ [Prompt ''Enter 'Y' to proceed with the update or 'N' to cancel: '',
                                CopyTree src dst] @ es) \<and>
            (plain_path src \<and> plain_path dst \<and> \<not> prefix (resolve src) (resolve dst) \<and>
             lookup (fs st) (resolve src) = Some (Dir tree) \<and>
             lookup (fs st) (resolve dst) = None \<and>
             is_dir (fs st) (butlast (resolve dst)) \<and>
             started w (TwoToThreeWrite dst) \<longrightarrow>
               fst (confirm_update w src dst st) = Inr () \<and>
               trace (snd (confirm_update w src dst st)) =
                 trace st @ [Prompt ''Enter 'Y' to proceed with the update or 'N' to cancel: '',
                             CopyTree src dst, Exec (TwoToThreeWrite dst),
                             LogInfo ''Update to Python 3.9 successful.''] \<and>
               lookup (fs (snd (confirm_update w src dst st))) (resolve dst) =
                 Some (rewrite w (Dir tree)) \<and>
               lookup (fs (snd (confirm_update w src dst st))) (resolve src) = Some (Dir tree))) \<and>
         (line \<in> {''N'', ''n''} \<longrightarrow>
            confirm_update w src dst st =
              (Inr (),
               st\<lparr>trace := trace st @
                  [Prompt ''Enter 'Y' to proceed with the update or 'N' to cancel: '',
                   LogInfo ''Update canceled.'']\<rparr>)) \<and>
         (lower (strip line) \<noteq> ''y'' \<and> lower (strip line) \<noteq> ''n'' \<longrightarrow>
            confirm_update w src dst st =
              (Inr (),
               st\<lparr>trace := trace st @
                  [Prompt ''Enter 'Y' to proceed with the update or 'N' to cancel: '',
                   LogError ''Invalid input. Update canceled.'']\<rparr>))"
proof -
  let ?p = "''Enter 'Y' to proceed with the update or 'N' to cancel: ''"
  let ?st1 = "emit (Prompt ?p) st"
  let ?ok = "LogInfo ''Update to Python 3.9 successful.''"
  have yes: "lower (strip ''Y'') = ''y''" "lower (strip ''y'') = ''y''"
    "lower (strip '' Y '') = ''y''"
    by code_simp+
  have no: "lower (strip ''N'') = ''n''" "lower (strip ''n'') = ''n''"
    by code_simp+
  have inp: "input w ?p st = (Inr line, ?st1)"
    using assms by (simp add: input_def)
  have st1: "fs ?st1 = fs st" "trace ?st1 = trace st @ [Prompt ?p]"
    by simp_all
  have run: "confirm_update w src dst st =
      (case update_to_python_3_9 w src dst ?st1 of
         (Inl e, st2) \<Rightarrow> (Inl e, st2)
       | (Inr u, st2) \<Rightarrow> (Inr (), emit ?ok st2))"
    if "lower (strip line) = ''y''"
    using that inp by (simp add: confirm_update_def)
  have first: "\<exists>es. trace (snd (confirm_update w src dst st)) =
                 trace st @ [Prompt ?p, CopyTree src dst] @ es"
    if y: "lower (strip line) = ''y''"
  proof -
    obtain es where es:
      "trace (snd (update_to_python_3_9 w src dst ?st1)) = trace ?st1 @ CopyTree src dst # es"
      using update_to_python_3_9_trace by blast
    obtain r st2 where u: "update_to_python_3_9 w src dst ?st1 = (r, st2)"
      by (cases "update_to_python_3_9 w src dst ?st1")
    show ?thesis
    proof (cases r)
      case (Inl e)
      with u es show ?thesis unfolding run [OF y] by simp
    next
      case (Inr v)
      with u es show ?thesis unfolding run [OF y] by simp
    qed
  qed
  have effect: "fst (confirm_update w src dst st) = Inr () \<and>
       trace (snd (confirm_update w src dst st)) =
         trace st @ [Prompt ?p, CopyTree src dst, Exec (TwoToThreeWrite dst), ?ok] \<and>
       lookup (fs (snd (confirm_update w src dst st))) (resolve dst) = Some (rewrite w (Dir tree)) \<and>
       lookup (fs (snd (confirm_update w src dst st))) (resolve src) = Some (Dir tree)"
    if y: "lower (strip line) = ''y''"
      and h: "plain_path src \<and> plain_path dst \<and> \<not> prefix (resolve src) (resolve dst) \<and>
             lookup (fs st) (resolve src) = Some (Dir tree) \<and>
             lookup (fs st) (resolve dst) = None \<and>
             is_dir (fs st) (butlast (resolve dst)) \<and>
             started w (TwoToThreeWrite dst)"
  proof -
    from h have a: "lookup (fs ?st1) (resolve src) = Some (Dir tree)"
      and b: "lookup (fs ?st1) (resolve dst) = None"
      and c: "is_dir (fs ?st1) (butlast (resolve dst))"
      and d: "started w (TwoToThreeWrite dst)"
      and np: "\<not> prefix (resolve src) (resolve dst)"
      by simp_all
    from update_to_python_3_9_fresh [OF a b c d] obtain t where
      u: "update_to_python_3_9 w src dst ?st1 =
            (Inr (), \<lparr>fs = t, trace = trace ?st1 @ [CopyTree src dst, Exec (TwoToThreeWrite dst)]\<rparr>)"
      and l: "lookup t (resolve dst) = Some (rewrite w (Dir tree))"
      by (elim exE conjE)
    from update_to_python_3_9_frame [OF u np] a
    have s: "lookup t (resolve src) = Some (Dir tree)" by simp
    show ?thesis
      unfolding run [OF y] u using l s by simp
  qed
  have cancel: "confirm_update w src dst st =
      (Inr (), st\<lparr>trace := trace st @ [Prompt ?p, LogInfo ''Update canceled.'']\<rparr>)"
    if "lower (strip line) = ''n''"
    using that inp by (simp add: confirm_update_def emit_def)
  have other: "confirm_update w src dst st =
      (Inr (), st\<lparr>trace := trace st @ [Prompt ?p, LogError ''Invalid input. Update canceled.'']\<rparr>)"
    if "lower (strip line) \<noteq> ''y''" "lower (strip line) \<noteq> ''n''"
    using that inp by (simp add: confirm_update_def emit_def)
  have y: "lower (strip line) = ''y''" if "line \<in> {''Y'', ''y'', '' Y ''}"
    using that yes by (elim insertE) simp_all
  have n: "lower (strip line) = ''n''" if "line \<in> {''N'', ''n''}"
    using that no by (elim insertE) simp_all
  show ?thesis
  proof (intro conjI impI)
    assume l: "line \<in> {''Y'', ''y'', '' Y ''}"
    show "confirm_update w src dst st =
      (case update_to_python_3_9 w src dst ?st1 of
         (Inl e, st2) \<Rightarrow> (Inl e, st2)
       | (Inr u, st2) \<Rightarrow> (Inr (), emit ?ok st2))"
      by (rule run [OF y [OF l]])
    show "\<exists>es. trace (snd (confirm_update w src dst st)) =
                 trace st @ [Prompt ?p, CopyTree src dst] @ es"
      by (rule first [OF y [OF l]])
  next
    assume l: "line \<in> {''Y'', ''y'', '' Y ''}"
      and h: "plain_path src \<and> plain_path dst \<and> \<not> prefix (resolve src) (resolve dst) \<and>
             lookup (fs st) (resolve src) = Some (Dir tree) \<and>
             lookup (fs st) (resolve dst) = None \<and>
             is_dir (fs st) (butlast (resolve dst)) \<and>
             started w (TwoToThreeWrite dst)"
    from effect [OF y [OF l] h]
    show "fst (confirm_update w src dst st) = Inr ()"
      and "trace (snd (confirm_update w src dst st)) =
         trace st @ [Prompt ?p, CopyTree src dst, Exec (TwoToThreeWrite dst), ?ok]"
      and "lookup (fs (snd (confirm_update w src dst st))) (resolve dst) = Some (rewrite w (Dir tree))"
      and "lookup (fs (snd (confirm_update w src dst st))) (resolve src) = Some (Dir tree)"
      by simp_all
  next
    assume "line \<in> {''N'', ''n''}"
    then show "confirm_update w src dst st =
      (Inr (), st\<lparr>trace := trace st @ [Prompt ?p, LogInfo ''Update canceled.'']\<rparr>)"
      by (rule cancel [OF n])
  next
    assume "lower (strip line) \<noteq> ''y'' \<and> lower (strip line) \<noteq> ''n''"
    then show "confirm_update w src dst st =
      (Inr (), st\<lparr>trace := trace st @ [Prompt ?p, LogError ''Invalid input. Update canceled.'']\<rparr>)"
      using other by simp
  qed
qed


theorem confirm_update_answers_witness:
  "fst (confirm_update (porting_world '' Y '') ''path_to_source_directory'' ''out'' demo_state) =
     Inr () \<and>
   trace (snd (confirm_update (porting_world '' Y '') ''path_to_source_directory'' ''out''
                 demo_state)) =
     [Prompt ''Enter 'Y' to proceed with the update or 'N' to cancel: '',
      CopyTree ''path_to_source_directory'' ''out'',
      Exec (TwoToThreeWrite ''out''),
      LogInfo ''Update to Python 3.9 successful.''] \<and>
   lookup (fs (snd (confirm_update (porting_world '' Y '') ''path_to_source_directory'' ''out''
                      demo_state))) [''out''] =
     Some (Dir [(''a.py'', File ''print(1)''),
                (''sub'', Dir [(''b.py'', File ''print(2)''), (''notes.txt'', File ''hello'')])]) \<and>
   lookup (fs (snd (confirm_update (porting_world '' Y '') ''path_to_source_directory'' ''out''
                      demo_state))) [''path_to_source_directory''] =
     Some (Dir [(''a.py'', File ''print 1''),
                (''sub'', Dir [(''b.py'', File ''print 2''), (''notes.txt'', File ''hello'')])]) \<and>
   confirm_update (porting_world ''N'') ''path_to_source_directory'' ''out'' demo_state =
     (Inr (),
      demo_state\<lparr>trace :=
         [Prompt ''Enter 'Y' to proceed with the update or 'N' to cancel: '',
          LogInfo ''Update canceled.'']\<rparr>) \<and>
   confirm_update (porting_world ''yes'') ''path_to_source_directory'' ''out'' demo_state =
     (Inr (),
      demo_state\<lparr>trace :=
         [Prompt ''Enter 'Y' to proceed with the update or 'N' to cancel: '',
          LogError ''Invalid input. Update canceled.'']\<rparr>)"
proof -
  let ?tree = "[(''a.py'', File ''print 1''),
                (''sub'', Dir [(''b.py'', File ''print 2''), (''notes.txt'', File ''hello'')])]"
  have l: "lower (strip ''yes'') = ''yes''"
    by code_simp
  have t: "trace demo_state = []"
    by (simp add: demo_state_def)
  have p: "plain_path ''path_to_source_directory''" "plain_path ''out''"
    by code_simp+
  have r: "resolve ''path_to_source_directory'' = [''path_to_source_directory'']"
    "resolve ''out'' = [''out'']"
    by code_simp+
  have s: "lookup (fs demo_state) [''path_to_source_directory''] = Some (Dir ?tree)"
    "lookup (fs demo_state) [''out''] = None"
    "is_dir (fs demo_state) []"
    by (simp_all add: demo_state_def demo_tree_def is_dir_def)
  have x: "started (porting_world '' Y '') (TwoToThreeWrite ''out'')"
    by (simp add: started_def porting_world_def demo_exec_def)
  have rw: "rewrite (porting_world '' Y '') (Dir ?tree) =
              Dir [(''a.py'', File ''print(1)''),
                   (''sub'', Dir [(''b.py'', File ''print(2)''), (''notes.txt'', File ''hello'')])]"
    by (simp add: porting_world_def)
  have i: "stdin_line (porting_world line) = Some line" for line
    by (simp add: porting_world_def)
  have y: "'' Y '' \<in> {''Y'', ''y'', '' Y ''}"
    by simp
  have h: "plain_path ''path_to_source_directory'' \<and> plain_path ''out'' \<and>
           \<not> prefix (resolve ''path_to_source_directory'') (resolve ''out'') \<and>
           lookup (fs demo_state) (resolve ''path_to_source_directory'') = Some (Dir ?tree) \<and>
           lookup (fs demo_state) (resolve ''out'') = None \<and>
           is_dir (fs demo_state) (butlast (resolve ''out'')) \<and>
           started (porting_world '' Y '') (TwoToThreeWrite ''out'')"
    using p s x unfolding r by simp
  have n: "''N'' \<in> {''N'', ''n''}"
    by simp
  have o: "lower (strip ''yes'') \<noteq> ''y'' \<and> lower (strip ''yes'') \<noteq> ''n''"
    unfolding l by simp
  note answers = confirm_update_answers [OF i]
  from answers [of "'' Y ''" "''path_to_source_directory''" "''out''" demo_state ?tree,
                THEN conjunct1, THEN mp, OF y, THEN conjunct2, THEN conjunct2, THEN mp, OF h]
       answers [of "''N''" "''path_to_source_directory''" "''out''" demo_state ?tree,
                THEN conjunct2, THEN conjunct1, THEN mp, OF n]
       answers [of "''yes''" "''path_to_source_directory''" "''out''" demo_state ?tree,
                THEN conjunct2, THEN conjunct2, THEN mp, OF o]
  show ?thesis
    unfolding r rw t by simp
qed

subsection \<open>The walk and the files of a tree\<close>

lemma files_under_nonempty: "p \<in> set (files_under n) \<Longrightarrow> p \<noteq> []"
  by (cases n) auto

lemma filenames_filter:
  "map (os_path_join root) (filter P (filenames es)) =
   map (foldl os_path_join root) (filter (\<lambda>p. P (last p)) (map (\<lambda>name. [name]) (filenames es)))"
  by (induction es rule: filenames.induct) auto

lemma walk_files:
  "concat (map (\<lambda>(root, dirs, files). map (os_path_join root) (filter P files)) (walk root n)) =
   map (foldl os_path_join root) (filter (\<lambda>p. P (last p)) (files_under n))"
proof (induction root n rule: walk.induct)
  case (1 root c)
  show ?case by simp
next
  case (2 root es)
  have sub: "concat (map (\<lambda>(root, dirs, files). map (os_path_join root) (filter P files))
                 (concat (map (\<lambda>(name, sub). walk (os_path_join root name) sub) es'))) =
             map (foldl os_path_join root)
               (filter (\<lambda>p. P (last p))
                  (concat (map (\<lambda>(name, sub). map ((#) name) (files_under sub)) es')))"
    if "set es' \<subseteq> set es" for es'
    using that
  proof (induction es')
    case Nil
    show ?case by simp
  next
    case (Cons e es')
    obtain name sub where e: "e = (name, sub)" by (cases e)
    with Cons.prems have mem: "(name, sub) \<in> set es" by simp
    have ih: "concat (map (\<lambda>(root, dirs, files). map (os_path_join root) (filter P files))
                 (walk (os_path_join root name) sub)) =
              map (foldl os_path_join (os_path_join root name))
                (filter (\<lambda>p. P (last p)) (files_under sub))"
      using "2.IH" [OF mem refl] .
    have "filter (\<lambda>p. P (last p)) (map ((#) name) ps) =
          map ((#) name) (filter (\<lambda>p. P (last p)) ps)" if "[] \<notin> set ps" for ps
      using that by (induction ps) auto
    from this [of "files_under sub"] files_under_nonempty [of "[]" sub]
    have last: "filter (\<lambda>p. P (last p)) (map ((#) name) (files_under sub)) =
                map ((#) name) (filter (\<lambda>p. P (last p)) (files_under sub))"
      by blast
    from Cons.prems have "set es' \<subseteq> set es" by simp
    from Cons.IH [OF this] ih last e show ?case
      by (simp add: comp_def)
  qed
  from sub [of es] filenames_filter [of root P es] show ?case by simp
qed

lemma python_files_source_files:
  "python_files t src =
     map (foldl os_path_join src)
       (filter (\<lambda>p. endswith (last p) ''.py'') (source_files t src))"
  by (simp add: python_files_def source_files_def os_walk_def walk_files split: option.splits)

lemma set_filenames: "set (filenames es) = {name. \<exists>c. (name, File c) \<in> set es}"
  by (induction es rule: filenames.induct) auto

lemma distinct_filenames: "distinct (map fst es) \<Longrightarrow> distinct (filenames es)"
  by (induction es rule: filenames.induct) (auto simp add: set_filenames rev_image_eqI)

text \<open>
  In a tree that lists no name twice, the list \<open>files_under\<close> has every file of the
  tree, at any depth, and has it once.
\<close>

lemma files_under_set:
  "wf_node n \<Longrightarrow> set (files_under n) = {p. p \<noteq> [] \<and> (\<exists>c. lookup n p = Some (File c))}"
proof (induction n rule: files_under.induct)
  case (1 c)
  have "lookup (File c) p = None" if "p \<noteq> []" for p
    using that by (cases p) auto
  then show ?case by auto
next
  case (2 es)
  from "2.prems" have d: "distinct (map fst es)" by simp
  have ih: "set (files_under sub) = {p. p \<noteq> [] \<and> (\<exists>c. lookup sub p = Some (File c))}"
    if "(name, sub) \<in> set es" for name sub
    using "2.IH" [OF that refl] "2.prems" that by auto
  show ?case
  proof (intro set_eqI iffI)
    fix p
    assume "p \<in> set (files_under (Dir es))"
    then consider (leaf) name c where "p = [name]" "(name, File c) \<in> set es"
      | (below) name sub q where "p = name # q" "(name, sub) \<in> set es" "q \<in> set (files_under sub)"
      by (auto simp add: set_filenames)
    then show "p \<in> {p. p \<noteq> [] \<and> (\<exists>c. lookup (Dir es) p = Some (File c))}"
    proof cases
      case leaf
      with d show ?thesis by simp
    next
      case below
      with ih [OF below(2)] d show ?thesis by auto
    qed
  next
    fix p
    assume "p \<in> {p. p \<noteq> [] \<and> (\<exists>c. lookup (Dir es) p = Some (File c))}"
    then obtain name q c where p: "p = name # q" and l: "lookup (Dir es) (name # q) = Some (File c)"
      by (cases p) auto
    from l obtain sub where m: "map_of es name = Some sub" and s: "lookup sub q = Some (File c)"
      by (auto split: option.splits)
    from m have mem: "(name, sub) \<in> set es" by (rule map_of_SomeD)
    show "p \<in> set (files_under (Dir es))"
    proof (cases q)
      case Nil
      with s mem p show ?thesis by (auto simp add: set_filenames)
    next
      case (Cons y q')
      with s ih [OF mem] have "q \<in> set (files_under sub)" by auto
      with mem p show ?thesis by force
    qed
  qed
qed

lemma files_below_distinct:
  "distinct (map fst es) \<Longrightarrow> (\<forall>(name, sub) \<in> set es. distinct (files_under sub)) \<Longrightarrow>
   distinct (concat (map (\<lambda>(name, sub). map ((#) name) (files_under sub)) es))"
proof (induction es)
  case Nil
  show ?case by simp
next
  case (Cons e es)
  obtain name sub where e: "e = (name, sub)" by (cases e)
  with Cons.prems have fresh: "name \<notin> fst ` set es" and here: "distinct (files_under sub)"
    by auto
  from Cons have rest: "distinct (concat (map (\<lambda>(name, sub). map ((#) name) (files_under sub)) es))"
    by simp
  from here have one: "distinct (map ((#) name) (files_under sub))"
    by (simp add: distinct_map)
  from fresh have "set (map ((#) name) (files_under sub)) \<inter>
        set (concat (map (\<lambda>(name, sub). map ((#) name) (files_under sub)) es)) = {}"
    by force
  with one rest e show ?case by simp
qed

lemma files_under_distinct: "wf_node n \<Longrightarrow> distinct (files_under n)"
proof (induction n rule: files_under.induct)
  case (1 c)
  show ?case by simp
next
  case (2 es)
  from "2.prems" have d: "distinct (map fst es)" by simp
  have subs: "\<forall>(name, sub) \<in> set es. distinct (files_under sub)"
    using "2.IH" "2.prems" by auto
  have a: "distinct (map (\<lambda>name. [name]) (filenames es))"
    using distinct_filenames [OF d] by (simp add: distinct_map inj_on_def)
  have b: "distinct (concat (map (\<lambda>(name, sub). map ((#) name) (files_under sub)) es))"
    using files_below_distinct [OF d subs] .
  have "set (map (\<lambda>name. [name]) (filenames es)) \<inter>
        set (concat (map (\<lambda>(name, sub). map ((#) name) (files_under sub)) es)) = {}"
    using files_under_nonempty by fastforce
  with a b show ?case by simp
qed

subsection \<open>The preview\<close>

lemma python_files_paths:
  "python_files t src = map (path_below src) (python_source_files t src)"
  by (simp add: python_files_source_files python_source_files_def path_below_def)

lemma new_events_append: "trace st' = trace st @ es \<Longrightarrow> new_events st st' = es"
  by (simp add: new_events_def)

lemma dry_runs_append: "dry_runs (es @ es') = dry_runs es @ dry_runs es'"
  by (induction es rule: dry_runs.induct) auto

lemma dict_set_keys: "fst ` set (dict_set k v d) = insert k (fst ` set d)"
  by (induction k v d rule: dict_set.induct) auto

lemma dict_set_distinct: "distinct (map fst d) \<Longrightarrow> distinct (map fst (dict_set k v d))"
  by (induction k v d rule: dict_set.induct) (auto simp add: dict_set_keys)

lemma dict_set_mem:
  "(p, out) \<in> set (dict_set k v d) \<Longrightarrow> (p = k \<and> out = v) \<or> (p, out) \<in> set d"
  by (induction k v d rule: dict_set.induct) (auto split: if_splits)

lemma dry_run_files_started:
  assumes "\<forall>p \<in> set files. started w (TwoToThreeDry p)"
  shows "\<exists>pc' es.
     dry_run_files w files pc st = (Inr pc', st\<lparr>trace := trace st @ es\<rparr>) \<and>
     dry_runs es = files \<and>
     filter is_migration es = [] \<and>
     (\<forall>p m out. p \<in> set files \<and> exec w (TwoToThreeDry p) = ExitNonzero m out \<longrightarrow>
        LogError (''Error during dry run for '' @ p @ '': '' @ strip out) \<in> set es) \<and>
     fst ` set pc' =
       fst ` set pc \<union> {p \<in> set files. \<exists>out. exec w (TwoToThreeDry p) = Exit0 out} \<and>
     (distinct (map fst pc) \<longrightarrow> distinct (map fst pc')) \<and>
     (\<forall>p out. (p, out) \<in> set pc' \<longrightarrow>
        (p, out) \<in> set pc \<or> exec w (TwoToThreeDry p) = Exit0 out)"
  using assms
proof (induction files arbitrary: pc st)
  case Nil
  show ?case
    by (rule exI [of _ pc], rule exI [of _ "[]"]) simp
next
  case (Cons file_path rest)
  let ?cmd = "TwoToThreeDry file_path"
  let ?msg = "\<lambda>p out. LogError (''Error during dry run for '' @ p @ '': '' @ strip out)"
  from Cons.prems have rest: "\<forall>p \<in> set rest. started w (TwoToThreeDry p)" by simp
  from Cons.prems have st: "started w ?cmd" by simp
  show ?case
  proof (cases "exec w ?cmd")
    case (SpawnFailed c m)
    with st show ?thesis by (simp add: started_def)
  next
    case (Exit0 out)
    let ?st1 = "emit (Exec ?cmd) st"
    let ?pc1 = "dict_set file_path out pc"
    from Cons.IH [OF rest, of ?pc1 ?st1] obtain pc' es where
      run: "dry_run_files w rest ?pc1 ?st1 = (Inr pc', ?st1\<lparr>trace := trace ?st1 @ es\<rparr>)" and
      dr: "dry_runs es = rest" and mg: "filter is_migration es = []" and
      lg: "\<forall>p m out. p \<in> set rest \<and> exec w (TwoToThreeDry p) = ExitNonzero m out \<longrightarrow>
             ?msg p out \<in> set es" and
      keys: "fst ` set pc' =
               fst ` set ?pc1 \<union> {p \<in> set rest. \<exists>out. exec w (TwoToThreeDry p) = Exit0 out}" and
      dist: "distinct (map fst ?pc1) \<longrightarrow> distinct (map fst pc')" and
      mem: "\<forall>p out'. (p, out') \<in> set pc' \<longrightarrow>
              (p, out') \<in> set ?pc1 \<or> exec w (TwoToThreeDry p) = Exit0 out'"
      by (elim exE conjE)
    let ?es = "Exec ?cmd # es"
    have 1: "dry_run_files w (file_path # rest) pc st = (Inr pc', st\<lparr>trace := trace st @ ?es\<rparr>)"
      using run Exit0 by (simp add: check_output_def emit_def)
    have 2: "dry_runs ?es = file_path # rest" using dr by simp
    have 3: "filter is_migration ?es = []" using mg by simp
    have 4: "\<forall>p m out. p \<in> set (file_path # rest) \<and> exec w (TwoToThreeDry p) = ExitNonzero m out \<longrightarrow>
             ?msg p out \<in> set ?es"
      using lg Exit0 by auto
    have 5: "fst ` set pc' =
       fst ` set pc \<union> {p \<in> set (file_path # rest). \<exists>out. exec w (TwoToThreeDry p) = Exit0 out}"
      unfolding keys dict_set_keys using Exit0 by auto
    have 6: "distinct (map fst pc) \<longrightarrow> distinct (map fst pc')"
      using dist dict_set_distinct [of pc file_path out] by simp
    have 7: "\<forall>p out'. (p, out') \<in> set pc' \<longrightarrow>
              (p, out') \<in> set pc \<or> exec w (TwoToThreeDry p) = Exit0 out'"
    proof (intro allI impI)
      fix p out'
      assume "(p, out') \<in> set pc'"
      with mem have "(p, out') \<in> set ?pc1 \<or> exec w (TwoToThreeDry p) = Exit0 out'" by simp
      with dict_set_mem [of p out' file_path out pc] Exit0
      show "(p, out') \<in> set pc \<or> exec w (TwoToThreeDry p) = Exit0 out'" by auto
    qed
    show ?thesis
      by (rule exI [of _ pc'], rule exI [of _ ?es]) (intro conjI 1 2 3 4 5 6 7)
  next
    case (ExitNonzero m out)
    let ?st1 = "emit (?msg file_path out) (emit (Exec ?cmd) st)"
    from Cons.IH [OF rest, of pc ?st1] obtain pc' es where
      run: "dry_run_files w rest pc ?st1 = (Inr pc', ?st1\<lparr>trace := trace ?st1 @ es\<rparr>)" and
      dr: "dry_runs es = rest" and mg: "filter is_migration es = []" and
      lg: "\<forall>p m out. p \<in> set rest \<and> exec w (TwoToThreeDry p) = ExitNonzero m out \<longrightarrow>
             ?msg p out \<in> set es" and
      keys: "fst ` set pc' =
               fst ` set pc \<union> {p \<in> set rest. \<exists>out. exec w (TwoToThreeDry p) = Exit0 out}" and
      dist: "distinct (map fst pc) \<longrightarrow> distinct (map fst pc')" and
      mem: "\<forall>p out'. (p, out') \<in> set pc' \<longrightarrow>
              (p, out') \<in> set pc \<or> exec w (TwoToThreeDry p) = Exit0 out'"
      by (elim exE conjE)
    let ?es = "Exec ?cmd # ?msg file_path out # es"
    have 1: "dry_run_files w (file_path # rest) pc st = (Inr pc', st\<lparr>trace := trace st @ ?es\<rparr>)"
      using run ExitNonzero by (simp add: check_output_def emit_def)
    have 2: "dry_runs ?es = file_path # rest" using dr by simp
    have 3: "filter is_migration ?es = []" using mg by simp
    have 4: "\<forall>p m out. p \<in> set (file_path # rest) \<and> exec w (TwoToThreeDry p) = ExitNonzero m out \<longrightarrow>
             ?msg p out \<in> set ?es"
      using lg ExitNonzero by auto
    have 5: "fst ` set pc' =
       fst ` set pc \<union> {p \<in> set (file_path # rest). \<exists>out. exec w (TwoToThreeDry p) = Exit0 out}"
      unfolding keys using ExitNonzero by auto
    show ?thesis
      by (rule exI [of _ pc'], rule exI [of _ ?es]) (intro conjI 1 2 3 4 5 dist mem)
  qed
qed

lemma write_file_in_working_directory:
  assumes "is_dir (fs st) []" and "\<not> is_dir (fs st) [x]" and "resolve name = [x]"
  shows "\<exists>t. write_file name text st = (Inr (), st\<lparr>fs := t\<rparr>) \<and> lookup t [x] = Some (File text)"
proof -
  from assms(1) obtain es where root: "fs st = Dir es"
    by (cases "fs st") (auto simp add: is_dir_def)
  from assms(2) root have nd: "\<forall>sub. map_of es x \<noteq> Some (Dir sub)"
    by (auto simp add: is_dir_def split: option.splits node.splits)
  have s: "store False name [] [x] (File text) (Dir es) =
             Inr (Dir (AList.update x (File text) es))"
    by (simp split: option.splits)
  have w: "write_file name text st = (Inr (), st\<lparr>fs := Dir (AList.update x (File text) es)\<rparr>)"
    using root nd s assms(3)
    by (auto simp add: write_file_def split: option.splits node.splits)
  have "lookup (Dir (AList.update x (File text) es)) [x] = Some (File text)"
    using store_lookup [OF s] .
  with w show ?thesis by blast
qed

text \<open>
  C8. Let every \<^verbatim>\<open>2to3 -n\<close> of the batch be started, and let the working directory have
  no directory named \<^verbatim>\<open>changes_for_update.log\<close>. Then the preview returns normally; it
  has run the tool on every path of the walk, in order, so a file on which the tool fails
  stops nothing; every such failure is logged as an error with the path and the output
  of the tool; and the log file holds one section per captured diff, the line
  \<^verbatim>\<open>Changes for path:\<close> and the diff: the paths of the sections are distinct, and a path
  has a section with a text exactly when it is a path of the walk on which the tool ended
  with status 0 and that text.
\<close>

theorem dry_run_2to3_batch:
  assumes "\<forall>p \<in> set (python_files (fs st) src). started w (TwoToThreeDry p)"
    and "is_dir (fs st) []"
    and "\<not> is_dir (fs st) [''changes_for_update.log'']"
  shows "\<exists>proposed_changes.
     fst (dry_run_2to3 w src st) = Inr () \<and>
     dry_runs (new_events st (snd (dry_run_2to3 w src st))) = python_files (fs st) src \<and>
     (\<forall>p m out. p \<in> set (python_files (fs st) src) \<and>
                 exec w (TwoToThreeDry p) = ExitNonzero m out \<longrightarrow>
        LogError (''Error during dry run for '' @ p @ '': '' @ strip out)
          \<in> set (new_events st (snd (dry_run_2to3 w src st)))) \<and>
     lookup (fs (snd (dry_run_2to3 w src st))) [''changes_for_update.log''] =
       Some (File (concat (map (\<lambda>(file_path, changes).
                                  ''Changes for '' @ file_path @ '':'' @ nl @ changes @ nl)
                               proposed_changes))) \<and>
     distinct (map fst proposed_changes) \<and>
     (\<forall>p out. (p, out) \<in> set proposed_changes \<longleftrightarrow>
        p \<in> set (python_files (fs st) src) \<and> exec w (TwoToThreeDry p) = Exit0 out)"
proof -
  let ?files = "python_files (fs st) src"
  from dry_run_files_started [OF assms(1), of "[]" st] obtain pc es where
    run: "dry_run_files w ?files [] st = (Inr pc, st\<lparr>trace := trace st @ es\<rparr>)" and
    dr: "dry_runs es = ?files" and mg: "filter is_migration es = []" and
    lg: "\<forall>p m out. p \<in> set ?files \<and> exec w (TwoToThreeDry p) = ExitNonzero m out \<longrightarrow>
           LogError (''Error during dry run for '' @ p @ '': '' @ strip out) \<in> set es" and
    keys: "fst ` set pc =
             fst ` set ([] :: (string \<times> string) list) \<union> {p \<in> set ?files. \<exists>out. exec w (TwoToThreeDry p) = Exit0 out}" and
    dist: "distinct (map fst ([] :: (string \<times> string) list)) \<longrightarrow> distinct (map fst pc)" and
    mem: "\<forall>p out. (p, out) \<in> set pc \<longrightarrow> (p, out) \<in> set ([] :: (string \<times> string) list) \<or> exec w (TwoToThreeDry p) = Exit0 out"
    by (elim exE conjE)
  let ?st1 = "st\<lparr>trace := trace st @ es\<rparr>"
  have d1: "is_dir (fs ?st1) []" and d2: "\<not> is_dir (fs ?st1) [''changes_for_update.log'']"
    using assms(2) assms(3) by simp_all
  have r: "resolve ''changes_for_update.log'' = [''changes_for_update.log'']"
    by code_simp
  from write_file_in_working_directory [OF d1 d2 r, of "changes_text pc"] obtain t where
    w: "write_file ''changes_for_update.log'' (changes_text pc) ?st1 = (Inr (), ?st1\<lparr>fs := t\<rparr>)" and
    lk: "lookup t [''changes_for_update.log''] = Some (File (changes_text pc))"
    by blast
  have res: "dry_run_2to3 w src st = (Inr (), ?st1\<lparr>fs := t\<rparr>)"
    using run w by (simp add: dry_run_2to3_def)
  have ne: "new_events st (snd (dry_run_2to3 w src st)) = es"
    using res by (simp add: new_events_def)
  have 1: "fst (dry_run_2to3 w src st) = Inr ()" using res by simp
  have 2: "dry_runs (new_events st (snd (dry_run_2to3 w src st))) = ?files"
    using ne dr by simp
  have 3: "\<forall>p m out. p \<in> set ?files \<and> exec w (TwoToThreeDry p) = ExitNonzero m out \<longrightarrow>
        LogError (''Error during dry run for '' @ p @ '': '' @ strip out)
          \<in> set (new_events st (snd (dry_run_2to3 w src st)))"
    using ne lg by simp
  have 4: "lookup (fs (snd (dry_run_2to3 w src st))) [''changes_for_update.log''] =
       Some (File (concat (map (\<lambda>(file_path, changes).
                                  ''Changes for '' @ file_path @ '':'' @ nl @ changes @ nl) pc)))"
    using res lk by (simp add: changes_text_def)
  have 5: "distinct (map fst pc)" using dist by simp
  have 6: "\<forall>p out. (p, out) \<in> set pc \<longleftrightarrow>
        p \<in> set ?files \<and> exec w (TwoToThreeDry p) = Exit0 out"
  proof (intro allI iffI)
    fix p out
    assume a: "(p, out) \<in> set pc"
    with mem have e: "exec w (TwoToThreeDry p) = Exit0 out" by simp
    from a have "p \<in> fst ` set pc" by force
    with keys have "p \<in> set ?files" by simp
    with e show "p \<in> set ?files \<and> exec w (TwoToThreeDry p) = Exit0 out" by simp
  next
    fix p out
    assume a: "p \<in> set ?files \<and> exec w (TwoToThreeDry p) = Exit0 out"
    with keys have "p \<in> fst ` set pc" by simp
    then obtain out' where o: "(p, out') \<in> set pc" by auto
    with mem have "exec w (TwoToThreeDry p) = Exit0 out'" by simp
    with a have "out' = out" by simp
    with o show "(p, out) \<in> set pc" by simp
  qed
  show ?thesis
    by (rule exI [of _ pc]) (intro conjI 1 2 3 4 5 6)
qed

subsection \<open>The run up to the report and to the preview\<close>

lemma find_incompatible_judged:
  assumes "\<forall>d \<in> set deps. judged w d"
  shows "find_incompatible w deps acc st =
           (Inr (acc @ filter (incompatible w) deps),
            st\<lparr>trace := trace st @
               map (\<lambda>d. Interpret (default_environment w) (fst d @ ''=='' @ snd d)) deps\<rparr>)"
  using assms
proof (induction deps arbitrary: acc st)
  case Nil
  show ?case by simp
next
  case (Cons d deps)
  obtain name version where d: "d = (name, version)" by (cases d)
  from Cons.prems d obtain val where
    v: "markers_interpret w (default_environment w) (name @ ''=='' @ version) = Inr val"
    by (auto simp add: judged_def verdict_def split: sum.splits)
  from Cons.prems have rest: "\<forall>d \<in> set deps. judged w d" by simp
  have inc: "incompatible w (name, version) = (\<not> truthy val)"
    using v by (simp add: incompatible_def verdict_def)
  show ?case
    using v d inc
    by (simp add: is_compatible_def Let_def Cons.IH [OF rest] emit_def)
qed

lemma dry_runs_interpret:
  "dry_runs (map (\<lambda>d. Interpret (f d) (g d)) deps) = []"
  by (induction deps) auto

lemma migration_interpret:
  "filter is_migration (map (\<lambda>d. Interpret (f d) (g d)) deps) = []"
  by (induction deps) auto

lemma migration_log_info:
  "filter is_migration (map (\<lambda>d. LogInfo (f d)) deps) = []"
  by (induction deps) auto

lemma dry_runs_write_only: "set es \<subseteq> {Exec (TwoToThreeWrite d)} \<Longrightarrow> dry_runs es = []"
  by (induction es) auto

lemma write_file_trace: "trace (snd (write_file name text st)) = trace st"
  by (simp add: write_file_def split: option.splits node.splits sum.splits)

lemma confirm_update_dry_runs:
  "\<exists>es. trace (snd (confirm_update w src dst st)) = trace st @ es \<and> dry_runs es = []"
proof (cases "stdin_line w")
  case None
  then have "trace (snd (confirm_update w src dst st)) =
      trace st @ [Prompt ''Enter 'Y' to proceed with the update or 'N' to cancel: '']"
    by (simp add: confirm_update_def input_def)
  then show ?thesis by simp
next
  case (Some line)
  let ?p = "Prompt ''Enter 'Y' to proceed with the update or 'N' to cancel: ''"
  show ?thesis
  proof (cases "lower (strip line) = ''y''")
    case False
    with Some have "trace (snd (confirm_update w src dst st)) = trace st @ [?p, LogInfo ''Update canceled.''] \<or>
       trace (snd (confirm_update w src dst st)) = trace st @ [?p, LogError ''Invalid input. Update canceled.'']"
      by (simp add: confirm_update_def input_def Let_def)
    then show ?thesis by auto
  next
    case True
    obtain r st2 where u: "update_to_python_3_9 w src dst (emit ?p st) = (r, st2)"
      by (cases "update_to_python_3_9 w src dst (emit ?p st)")
    from update_to_python_3_9_trace [of w src dst "emit ?p st"] u obtain es where
      t: "trace st2 = trace st @ ?p # CopyTree src dst # es" and
      w: "set es \<subseteq> {Exec (TwoToThreeWrite dst)}"
      by auto
    from dry_runs_write_only [OF w] have d: "dry_runs es = []" .
    show ?thesis
    proof (cases r)
      case (Inl e)
      with True Some u t have
        "trace (snd (confirm_update w src dst st)) = trace st @ (?p # CopyTree src dst # es)"
        by (simp add: confirm_update_def input_def)
      moreover have "dry_runs (?p # CopyTree src dst # es) = []" using d by simp
      ultimately show ?thesis by blast
    next
      case (Inr v)
      with True Some u t have
        "trace (snd (confirm_update w src dst st)) =
           trace st @ (?p # CopyTree src dst # es @ [LogInfo ''Update to Python 3.9 successful.''])"
        by (simp add: confirm_update_def input_def)
      moreover have
        "dry_runs (?p # CopyTree src dst # es @ [LogInfo ''Update to Python 3.9 successful.'']) = []"
        using d by (simp add: dry_runs_append)
      ultimately show ?thesis by blast
    qed
  qed
qed

lemma dry_run_files_trace:
  assumes "\<forall>p \<in> set files. started w (TwoToThreeDry p)"
  shows "\<exists>pc es.
     dry_run_files w files [] st = (Inr pc, st\<lparr>trace := trace st @ es\<rparr>) \<and>
     dry_runs es = files \<and> filter is_migration es = []"
proof -
  from dry_run_files_started [OF assms, of "[]" st] obtain pc es where
    "dry_run_files w files [] st = (Inr pc, st\<lparr>trace := trace st @ es\<rparr>) \<and>
     dry_runs es = files \<and> filter is_migration es = []"
    by (elim exE conjE) (rule that, intro conjI)
  then show ?thesis by (intro exI)
qed

lemma preview_and_update_dry_runs:
  assumes "\<forall>p \<in> set (python_files (fs st) src). started w (TwoToThreeDry p)"
  shows "\<exists>es. trace (snd (preview_and_update w src dst st)) = trace st @ es \<and>
              dry_runs es = python_files (fs st) src"
proof -
  let ?files = "python_files (fs st) src"
  from dry_run_files_trace [OF assms, of st] obtain pc es where
    run: "dry_run_files w ?files [] st = (Inr pc, st\<lparr>trace := trace st @ es\<rparr>)" and
    dr: "dry_runs es = ?files" and mg: "filter is_migration es = []"
    by (elim exE conjE)
  let ?st1 = "st\<lparr>trace := trace st @ es\<rparr>"
  obtain r st2 where w: "write_file ''changes_for_update.log'' (changes_text pc) ?st1 = (r, st2)"
    by (cases "write_file ''changes_for_update.log'' (changes_text pc) ?st1")
  from write_file_trace [of "''changes_for_update.log''" "changes_text pc" ?st1] w
  have t2: "trace st2 = trace st @ es" by simp
  have d: "dry_run_2to3 w src st = (r, st2)"
    using run w by (simp add: dry_run_2to3_def)
  show ?thesis
  proof (cases r)
    case (Inl e)
    with d t2 have "trace (snd (preview_and_update w src dst st)) = trace st @ es"
      by (simp add: preview_and_update_def)
    with dr show ?thesis by (intro exI [of _ es] conjI)
  next
    case (Inr u)
    let ?st3 = "emit (LogInfo
        ''Dry run completed. Proposed changes logged in 'changes_for_update.log'.'') st2"
    from confirm_update_dry_runs [of w src dst ?st3] obtain es' where
      c: "trace (snd (confirm_update w src dst ?st3)) = trace ?st3 @ es'" and
      d': "dry_runs es' = []"
      by (elim exE conjE)
    let ?all = "es @ LogInfo
        ''Dry run completed. Proposed changes logged in 'changes_for_update.log'.'' # es'"
    from Inr d c t2 have "trace (snd (preview_and_update w src dst st)) = trace st @ ?all"
      by (simp add: preview_and_update_def)
    moreover have "dry_runs ?all = ?files"
      using dr d' by (simp add: dry_runs_append)
    ultimately show ?thesis by (intro exI [of _ ?all] conjI)
  qed
qed

lemma main_reaches_dependencies:
  assumes "exec w (PythonVersion src) = Exit0 version_info"
    and "re_search_version version_info = Some v"
    and "\<not> startswith v ''3.9''"
  shows "main w src dst st =
    (case check_dependencies w src dst
            (st\<lparr>trace := trace st @
               [Exec (PythonVersion src), LogInfo (''Detected Python version: '' @ v)]\<rparr>) of
       (Inl e, st3) \<Rightarrow>
         if is_Exception e
         then (Inr (), emit (LogError (''Error during dependency scan: '' @ str_of e)) st3)
         else (Inl e, st3)
     | (Inr u, st3) \<Rightarrow> (Inr (), st3))"
  using assms
  by (simp add: main_def scan_python_version_found [OF assms(1) assms(2)] emit_def Let_def)

lemma check_dependencies_judged:
  assumes "exec w Pipdeptree = Exit0 dependency_tree"
    and "\<forall>d \<in> set (re_findall_dependencies dependency_tree). judged w d"
  shows "check_dependencies w src dst st =
    (if filter (incompatible w) (re_findall_dependencies dependency_tree) \<noteq> [] then
       report_incompatible (filter (incompatible w) (re_findall_dependencies dependency_tree))
         (st\<lparr>trace := trace st @ Exec Pipdeptree #
             map (\<lambda>d. Interpret (default_environment w) (fst d @ ''=='' @ snd d))
               (re_findall_dependencies dependency_tree)\<rparr>)
     else
       (case preview_and_update w src dst
               (emit (LogInfo
                  ''All dependencies are compatible with Python 3.9. Proceeding with the update.'')
                  (st\<lparr>trace := trace st @ Exec Pipdeptree #
                      map (\<lambda>d. Interpret (default_environment w) (fst d @ ''=='' @ snd d))
                        (re_findall_dependencies dependency_tree)\<rparr>)) of
          (Inl e, st3) \<Rightarrow>
            if is_Exception e
            then (Inr (), emit (LogError (''Error during update: '' @ str_of e)) st3)
            else (Inl e, st3)
        | (Inr u, st3) \<Rightarrow> (Inr (), st3)))"
  by (simp add: check_dependencies_def scan_dependencies_def check_output_Exit0 [OF assms(1)]
        find_incompatible_judged [OF assms(2)] emit_def)

subsection \<open>The compatibility check\<close>

lemma find_incompatible_raises:
  assumes "\<forall>x \<in> set pre. judged w x" and "verdict w d = Inl e"
  shows "find_incompatible w (pre @ d # post) acc st =
           (Inl e,
            st\<lparr>trace := trace st @
               map (\<lambda>x. Interpret (default_environment w) (fst x @ ''=='' @ snd x)) (pre @ [d])\<rparr>)"
  using assms(1)
proof (induction pre arbitrary: acc st)
  case Nil
  obtain name version where d: "d = (name, version)" by (cases d)
  with assms(2) show ?case
    by (simp add: is_compatible_def Let_def verdict_def emit_def)
next
  case (Cons x pre)
  obtain name version where x: "x = (name, version)" by (cases x)
  from Cons.prems x obtain val where
    v: "markers_interpret w (default_environment w) (name @ ''=='' @ version) = Inr val"
    by (auto simp add: judged_def verdict_def split: sum.splits)
  from Cons.prems have rest: "\<forall>x \<in> set pre. judged w x" by simp
  show ?case
    using v x by (simp add: is_compatible_def Let_def Cons.IH [OF rest] emit_def)
qed

text \<open>
  C3, as amended. The check makes one call to the marker evaluator, with the default
  environment and the text \<open>name==version\<close>, and gives back what that call gives: the
  verdict when the evaluator returns one, the exception when it raises. It changes no
  file and adds the one call to the trace. In a run of \<open>main\<close> that reaches the scan of
  the dependencies, when the evaluator raises on a dependency \<open>d\<close>, having answered on
  those before it, the scan ends at \<open>d\<close>: no dependency after \<open>d\<close> is checked, no file is
  written, nothing is previewed or migrated. When the exception is an \<^verbatim>\<open>Exception\<close>,
  \<open>main\<close> catches it, logs \<^verbatim>\<open>Error during dependency scan:\<close> with its text as an error
  and returns; when it is not (\<^verbatim>\<open>KeyboardInterrupt\<close>), it leaves \<open>main\<close> and nothing is
  logged about it.
\<close>

theorem is_compatible_delegates:
  "is_compatible w name version st =
     (markers_interpret w (default_environment w) (name @ ''=='' @ version),
      st\<lparr>trace := trace st @ [Interpret (default_environment w) (name @ ''=='' @ version)]\<rparr>) \<and>
   (exec w (PythonVersion src) = Exit0 version_info \<and>
    re_search_version version_info = Some v \<and> \<not> startswith v ''3.9'' \<and>
    exec w Pipdeptree = Exit0 dependency_tree \<and>
    re_findall_dependencies dependency_tree = pre @ d # post \<and>
    (\<forall>x \<in> set pre. judged w x) \<and> verdict w d = Inl e \<longrightarrow>
    main w src dst st =
      (if is_Exception e then Inr () else Inl e,
       st\<lparr>trace := trace st @
          [Exec (PythonVersion src), LogInfo (''Detected Python version: '' @ v), Exec Pipdeptree] @
          map (\<lambda>x. Interpret (default_environment w) (fst x @ ''=='' @ snd x)) (pre @ [d]) @
          (if is_Exception e
           then [LogError (''Error during dependency scan: '' @ str_of e)] else [])\<rparr>))"
proof (intro conjI impI)
  show "is_compatible w name version st =
     (markers_interpret w (default_environment w) (name @ ''=='' @ version),
      st\<lparr>trace := trace st @ [Interpret (default_environment w) (name @ ''=='' @ version)]\<rparr>)"
    by (simp add: is_compatible_def emit_def Let_def)
next
  assume h: "exec w (PythonVersion src) = Exit0 version_info \<and>
    re_search_version version_info = Some v \<and> \<not> startswith v ''3.9'' \<and>
    exec w Pipdeptree = Exit0 dependency_tree \<and>
    re_findall_dependencies dependency_tree = pre @ d # post \<and>
    (\<forall>x \<in> set pre. judged w x) \<and> verdict w d = Inl e"
  then have h1: "exec w (PythonVersion src) = Exit0 version_info"
    and h2: "re_search_version version_info = Some v" and h3: "\<not> startswith v ''3.9''"
    and h4: "exec w Pipdeptree = Exit0 dependency_tree"
    and h5: "re_findall_dependencies dependency_tree = pre @ d # post"
    and h6: "\<forall>x \<in> set pre. judged w x" and h7: "verdict w d = Inl e"
    by simp_all
  let ?st0 = "st\<lparr>trace := trace st @
                [Exec (PythonVersion src), LogInfo (''Detected Python version: '' @ v)]\<rparr>"
  let ?calls = "map (\<lambda>x. Interpret (default_environment w) (fst x @ ''=='' @ snd x)) (pre @ [d])"
  have chk: "check_dependencies w src dst ?st0 =
               (Inl e, ?st0\<lparr>trace := trace ?st0 @ Exec Pipdeptree # ?calls\<rparr>)"
    by (simp add: check_dependencies_def scan_dependencies_def check_output_Exit0 [OF h4] h5
          find_incompatible_raises [OF h6 h7] emit_def)
  show "main w src dst st =
      (if is_Exception e then Inr () else Inl e,
       st\<lparr>trace := trace st @
          [Exec (PythonVersion src), LogInfo (''Detected Python version: '' @ v), Exec Pipdeptree] @
          ?calls @
          (if is_Exception e
           then [LogError (''Error during dependency scan: '' @ str_of e)] else [])\<rparr>)"
    unfolding main_reaches_dependencies [OF h1 h2 h3] chk by (simp add: emit_def)
qed

theorem is_compatible_delegates_witness:
  "main (demo_world ''Python 3.8.10'' (Inl (Raised OtherException ''Invalid marker'')) ''y'')
        ''path_to_source_directory'' ''path_to_destination_directory'' demo_state =
     (Inr (),
      demo_state\<lparr>trace :=
         [Exec (PythonVersion ''path_to_source_directory''),
          LogInfo ''Detected Python version: 3.8.10'',
          Exec Pipdeptree,
          Interpret [(''python_version'', ''3.8'')] ''flask==1.0.0'',
          LogError ''Error during dependency scan: Invalid marker'']\<rparr>)"
proof -
  let ?w = "demo_world ''Python 3.8.10'' (Inl (Raised OtherException ''Invalid marker'')) ''y''"
  have h1: "exec ?w (PythonVersion ''path_to_source_directory'') = Exit0 ''Python 3.8.10''"
    by (simp add: demo_world_def demo_exec_def)
  have h2: "re_search_version ''Python 3.8.10'' = Some ''3.8.10''"
    by code_simp
  have h3: "\<not> startswith ''3.8.10'' ''3.9''"
    by (simp add: startswith_def)
  have h4: "exec ?w Pipdeptree = Exit0 ''flask==1.0.0''"
    by (simp add: demo_world_def demo_exec_def)
  have h5: "re_findall_dependencies ''flask==1.0.0'' = [] @ (''flask'', ''1.0.0'') # []"
    by code_simp
  have h6: "\<forall>x \<in> set ([] :: (string \<times> string) list). judged ?w x"
    by simp
  have h7: "verdict ?w (''flask'', ''1.0.0'') = Inl (Raised OtherException ''Invalid marker'')"
    by (simp add: verdict_def demo_world_def)
  have env: "default_environment ?w = [(''python_version'', ''3.8'')]"
    by (simp add: demo_world_def)
  from is_compatible_delegates
         [of ?w "''flask''" "''1.0.0''" demo_state "''path_to_source_directory''" "''Python 3.8.10''"
             "''3.8.10''" "''flask==1.0.0''" "[]" "(''flask'', ''1.0.0'')" "[]"
             "Raised OtherException ''Invalid marker''" "''path_to_destination_directory''"]
       h1 h2 h3 h4 h5 h6 h7 env
  show ?thesis by (simp add: demo_state_def)
qed

text \<open>
  C3, as stated, fails: with an evaluator that raises, the check raises; with one that
  returns \<open>None\<close>, it returns \<open>None\<close>.
\<close>

theorem is_compatible_not_always_boolean:
  "fst (is_compatible (demo_world ''Python 3.8.10'' (Inl (Raised OtherException ''Invalid marker'')) ''y'')
          ''flask'' ''1.0.0'' demo_state) =
     Inl (Raised OtherException ''Invalid marker'') \<and>
   fst (is_compatible (demo_world ''Python 3.8.10'' (Inr PyNone) ''y'')
          ''flask'' ''1.0.0'' demo_state) = Inr PyNone"
  by (simp add: is_compatible_def demo_world_def Let_def)

subsection \<open>The report of the incompatible dependencies\<close>

text \<open>
  C1. Let the interpreter report a version that does not start with 3.9, let the scan
  give a list of dependencies each of which the evaluator judges, at least one of them
  as incompatible, and let the working directory have no directory named
  \<^verbatim>\<open>compatibility-concerns.log\<close>. Then \<open>main\<close> returns normally, the log file holds one
  line \<open>name==version\<close> for every incompatible dependency, in the order of the scan, and
  nothing else, and the run has neither copied a tree nor run \<^verbatim>\<open>2to3\<close> in write mode.
\<close>

theorem main_reports_incompatible:
  assumes "exec w (PythonVersion src) = Exit0 version_info"
    and "re_search_version version_info = Some v"
    and "\<not> startswith v ''3.9''"
    and "exec w Pipdeptree = Exit0 dependency_tree"
    and "\<forall>d \<in> set (re_findall_dependencies dependency_tree). judged w d"
    and "\<exists>d \<in> set (re_findall_dependencies dependency_tree). incompatible w d"
    and "is_dir (fs st) []"
    and "\<not> is_dir (fs st) [''compatibility-concerns.log'']"
  shows "fst (main w src dst st) = Inr () \<and>
         lookup (fs (snd (main w src dst st))) [''compatibility-concerns.log''] =
           Some (File (concat (map (\<lambda>(name, version). name @ ''=='' @ version @ nl)
                     (filter (incompatible w) (re_findall_dependencies dependency_tree))))) \<and>
         filter is_migration (new_events st (snd (main w src dst st))) = []"
proof -
  let ?deps = "re_findall_dependencies dependency_tree"
  let ?inc = "filter (incompatible w) ?deps"
  let ?pre = "[Exec (PythonVersion src), LogInfo (''Detected Python version: '' @ v)] @
              Exec Pipdeptree #
              map (\<lambda>d. Interpret (default_environment w) (fst d @ ''=='' @ snd d)) ?deps @
              [LogInfo ''The following dependencies are not compatible with Python 3.9:'']"
  let ?st1 = "st\<lparr>trace := trace st @ ?pre\<rparr>"
  from assms(6) have ne: "?inc \<noteq> []" by (auto simp add: filter_empty_conv)
  have d1: "is_dir (fs ?st1) []" and d2: "\<not> is_dir (fs ?st1) [''compatibility-concerns.log'']"
    using assms(7) assms(8) by simp_all
  have r: "resolve ''compatibility-concerns.log'' = [''compatibility-concerns.log'']"
    by code_simp
  from write_file_in_working_directory [OF d1 d2 r, of "concerns_text ?inc"] obtain t where
    w: "write_file ''compatibility-concerns.log'' (concerns_text ?inc) ?st1 =
          (Inr (), ?st1\<lparr>fs := t\<rparr>)" and
    lk: "lookup t [''compatibility-concerns.log''] = Some (File (concerns_text ?inc))"
    by (elim exE conjE)
  let ?post = "map (\<lambda>(name, version). LogInfo (name @ ''=='' @ version)) ?inc @
               [LogInfo ''Please review the compatibility-concerns.log file for more details.'']"
  let ?final = "st\<lparr>trace := trace st @ ?pre @ ?post, fs := t\<rparr>"
  have rep: "report_incompatible ?inc
               (st\<lparr>trace := trace st @
                  [Exec (PythonVersion src), LogInfo (''Detected Python version: '' @ v)] @
                  Exec Pipdeptree #
                  map (\<lambda>d. Interpret (default_environment w) (fst d @ ''=='' @ snd d)) ?deps\<rparr>) =
             (Inr (), ?final)"
  proof -
    have e1: "emit (LogInfo ''The following dependencies are not compatible with Python 3.9:'')
                (st\<lparr>trace := trace st @
                  [Exec (PythonVersion src), LogInfo (''Detected Python version: '' @ v)] @
                  Exec Pipdeptree #
                  map (\<lambda>d. Interpret (default_environment w) (fst d @ ''=='' @ snd d)) ?deps\<rparr>) =
              ?st1"
      by (simp add: emit_def)
    have e2: "emit (LogInfo ''Please review the compatibility-concerns.log file for more details.'')
                (foldl (\<lambda>s (name, version). emit (LogInfo (name @ ''=='' @ version)) s)
                   (?st1\<lparr>fs := t\<rparr>) ?inc) = ?final"
      by (rule state.equality) (simp_all add: foldl_emit_trace foldl_emit_fs)
    show ?thesis
      by (simp only: report_incompatible_def Let_def e1 w prod.case sum.case e2)
  qed
  have chk: "check_dependencies w src dst
               (st\<lparr>trace := trace st @
                  [Exec (PythonVersion src), LogInfo (''Detected Python version: '' @ v)]\<rparr>) =
             (Inr (), ?final)"
    using rep ne by (simp add: check_dependencies_judged [OF assms(4) assms(5)])
  have m: "main w src dst st = (Inr (), ?final)"
    using chk by (simp add: main_reaches_dependencies [OF assms(1) assms(2) assms(3)])
  have 1: "fst (main w src dst st) = Inr ()" using m by simp
  have 2: "lookup (fs (snd (main w src dst st))) [''compatibility-concerns.log''] =
           Some (File (concat (map (\<lambda>(name, version). name @ ''=='' @ version @ nl) ?inc)))"
    using m lk by (simp add: concerns_text_def)
  have "new_events st (snd (main w src dst st)) = ?pre @ ?post"
    using m by (simp add: new_events_def)
  moreover have "filter is_migration (?pre @ ?post) = []"
    by (simp add: migration_interpret filter_empty_conv split: prod.splits)
  ultimately have 3: "filter is_migration (new_events st (snd (main w src dst st))) = []"
    by simp
  from 1 2 3 show ?thesis by (intro conjI)
qed

subsection \<open>The files given to the preview\<close>

text \<open>
  C6. Let the interpreter report a version that does not start with 3.9, let the
  evaluator judge every scanned dependency compatible, and let every \<^verbatim>\<open>2to3 -n\<close> of the
  preview be started. Then the paths on which the run of \<open>main\<close> has called \<^verbatim>\<open>2to3 -n\<close>
  are, in the order of the walk, the paths of the files of the source tree whose name
  ends in \<^verbatim>\<open>.py\<close>: one call for each of these files and none for another file
  (\<open>files_under_set\<close> and \<open>files_under_distinct\<close> say what the files of a tree are).
\<close>

theorem main_previews_python_files:
  assumes "exec w (PythonVersion src) = Exit0 version_info"
    and "re_search_version version_info = Some v"
    and "\<not> startswith v ''3.9''"
    and "exec w Pipdeptree = Exit0 dependency_tree"
    and "\<forall>d \<in> set (re_findall_dependencies dependency_tree). judged w d \<and> \<not> incompatible w d"
    and "\<forall>p \<in> set (python_source_files (fs st) src). started w (TwoToThreeDry (path_below src p))"
  shows "dry_runs (new_events st (snd (main w src dst st))) =
           map (path_below src) (python_source_files (fs st) src)"
proof -
  let ?deps = "re_findall_dependencies dependency_tree"
  let ?pre = "[Exec (PythonVersion src), LogInfo (''Detected Python version: '' @ v)] @
              Exec Pipdeptree #
              map (\<lambda>d. Interpret (default_environment w) (fst d @ ''=='' @ snd d)) ?deps @
              [LogInfo
                 ''All dependencies are compatible with Python 3.9. Proceeding with the update.'']"
  let ?st0 = "st\<lparr>trace := trace st @
                [Exec (PythonVersion src), LogInfo (''Detected Python version: '' @ v)]\<rparr>"
  let ?st1 = "st\<lparr>trace := trace st @ ?pre\<rparr>"
  have pre: "dry_runs ?pre = []"
    by (simp add: dry_runs_append dry_runs_interpret)
  from assms(5) have judged: "\<forall>d \<in> set ?deps. judged w d" by simp
  from assms(5) have none: "filter (incompatible w) ?deps = []"
    by (simp add: filter_empty_conv)
  have e1: "emit (LogInfo
               ''All dependencies are compatible with Python 3.9. Proceeding with the update.'')
              (?st0\<lparr>trace := trace ?st0 @ Exec Pipdeptree #
                  map (\<lambda>d. Interpret (default_environment w) (fst d @ ''=='' @ snd d)) ?deps\<rparr>) =
            ?st1"
    by (simp add: emit_def)
  have files: "python_files (fs ?st1) src = map (path_below src) (python_source_files (fs st) src)"
    by (simp add: python_files_paths)
  from assms(6) have "\<forall>p \<in> set (python_files (fs ?st1) src). started w (TwoToThreeDry p)"
    unfolding files by simp
  from preview_and_update_dry_runs [OF this, of dst] obtain es where
    t: "trace (snd (preview_and_update w src dst ?st1)) = trace ?st1 @ es" and
    d: "dry_runs es = python_files (fs ?st1) src"
    by (elim exE conjE)
  obtain r st5 where p: "preview_and_update w src dst ?st1 = (r, st5)"
    by (cases "preview_and_update w src dst ?st1")
  from t p have t5: "trace st5 = trace st @ ?pre @ es" by simp
  have chk: "check_dependencies w src dst ?st0 =
    (case (r, st5) of
       (Inl e, st3) \<Rightarrow>
         if is_Exception e
         then (Inr (), emit (LogError (''Error during update: '' @ str_of e)) st3)
         else (Inl e, st3)
     | (Inr u, st3) \<Rightarrow> (Inr (), st3))"
    by (simp only: check_dependencies_judged [OF assms(4) judged] none e1 p) simp
  have m: "main w src dst st =
    (case check_dependencies w src dst ?st0 of
       (Inl e, st3) \<Rightarrow>
         if is_Exception e
         then (Inr (), emit (LogError (''Error during dependency scan: '' @ str_of e)) st3)
         else (Inl e, st3)
     | (Inr u, st3) \<Rightarrow> (Inr (), st3))"
    by (rule main_reaches_dependencies [OF assms(1) assms(2) assms(3)])
  have "\<exists>post. trace (snd (main w src dst st)) = trace st @ ?pre @ es @ post \<and> dry_runs post = []"
  proof (cases r)
    case (Inr u)
    with m chk t5 have "trace (snd (main w src dst st)) = trace st @ ?pre @ es @ []" by simp
    then show ?thesis by (intro exI [of _ "[]"] conjI) simp_all
  next
    case (Inl e)
    show ?thesis
    proof (cases "is_Exception e")
      case True
      with Inl m chk t5 have "trace (snd (main w src dst st)) =
          trace st @ ?pre @ es @ [LogError (''Error during update: '' @ str_of e)]"
        by simp
      then show ?thesis
        by (intro exI [of _ "[LogError (''Error during update: '' @ str_of e)]"] conjI) simp_all
    next
      case False
      with Inl m chk t5 have "trace (snd (main w src dst st)) = trace st @ ?pre @ es @ []" by simp
      then show ?thesis by (intro exI [of _ "[]"] conjI) simp_all
    qed
  qed
  then obtain post where
    tr: "trace (snd (main w src dst st)) = trace st @ ?pre @ es @ post" and po: "dry_runs post = []"
    by (elim exE conjE)
  from tr have "new_events st (snd (main w src dst st)) = ?pre @ es @ post"
    by (simp add: new_events_def)
  then have "dry_runs (new_events st (snd (main w src dst st))) = dry_runs ?pre @ dry_runs es @ dry_runs post"
    by (simp only: dry_runs_append)
  with pre d po files show ?thesis by simp
qed

subsection \<open>The example runs\<close>

theorem main_reports_incompatible_witness:
  "fst (main (demo_world ''Python 3.8.10'' (Inr (PyBool False)) ''y'')
          ''path_to_source_directory'' ''path_to_destination_directory'' demo_state) = Inr () \<and>
   lookup (fs (snd (main (demo_world ''Python 3.8.10'' (Inr (PyBool False)) ''y'')
          ''path_to_source_directory'' ''path_to_destination_directory'' demo_state)))
     [''compatibility-concerns.log''] = Some (File (''flask==1.0.0'' @ nl)) \<and>
   filter is_migration
     (new_events demo_state
        (snd (main (demo_world ''Python 3.8.10'' (Inr (PyBool False)) ''y'')
          ''path_to_source_directory'' ''path_to_destination_directory'' demo_state))) = []"
proof -
  let ?w = "demo_world ''Python 3.8.10'' (Inr (PyBool False)) ''y''"
  have h1: "exec ?w (PythonVersion ''path_to_source_directory'') = Exit0 ''Python 3.8.10''"
    by (simp add: demo_world_def demo_exec_def)
  have h2: "re_search_version ''Python 3.8.10'' = Some ''3.8.10''"
    by code_simp
  have h3: "\<not> startswith ''3.8.10'' ''3.9''"
    by (simp add: startswith_def)
  have h4: "exec ?w Pipdeptree = Exit0 ''flask==1.0.0''"
    by (simp add: demo_world_def demo_exec_def)
  have deps: "re_findall_dependencies ''flask==1.0.0'' = [(''flask'', ''1.0.0'')]"
    by code_simp
  have inc: "incompatible ?w (''flask'', ''1.0.0'')"
    by (simp add: incompatible_def verdict_def demo_world_def)
  have h5: "\<forall>d \<in> set (re_findall_dependencies ''flask==1.0.0''). judged ?w d"
    unfolding deps by (simp add: judged_def verdict_def demo_world_def)
  have h6: "\<exists>d \<in> set (re_findall_dependencies ''flask==1.0.0''). incompatible ?w d"
    unfolding deps using inc by simp
  have h7: "is_dir (fs demo_state) []"
    by (simp add: is_dir_def demo_state_def demo_tree_def)
  have h8: "\<not> is_dir (fs demo_state) [''compatibility-concerns.log'']"
    by (simp add: is_dir_def demo_state_def demo_tree_def)
  from main_reports_incompatible
         [OF h1 h2 h3 h4 h5 h6 h7 h8, of "''path_to_destination_directory''", unfolded deps] inc
  show ?thesis by simp
qed

theorem main_previews_python_files_witness:
  "dry_runs (new_events demo_state
     (snd (main (demo_world ''Python 3.8.10'' (Inr (PyBool True)) ''n'')
          ''path_to_source_directory'' ''path_to_destination_directory'' demo_state))) =
   [''path_to_source_directory/a.py'', ''path_to_source_directory/sub/b.py'']"
proof -
  let ?w = "demo_world ''Python 3.8.10'' (Inr (PyBool True)) ''n''"
  have h1: "exec ?w (PythonVersion ''path_to_source_directory'') = Exit0 ''Python 3.8.10''"
    by (simp add: demo_world_def demo_exec_def)
  have h2: "re_search_version ''Python 3.8.10'' = Some ''3.8.10''"
    by code_simp
  have h3: "\<not> startswith ''3.8.10'' ''3.9''"
    by (simp add: startswith_def)
  have h4: "exec ?w Pipdeptree = Exit0 ''flask==1.0.0''"
    by (simp add: demo_world_def demo_exec_def)
  have deps: "re_findall_dependencies ''flask==1.0.0'' = [(''flask'', ''1.0.0'')]"
    by code_simp
  have h5: "\<forall>d \<in> set (re_findall_dependencies ''flask==1.0.0'').
              judged ?w d \<and> \<not> incompatible ?w d"
    unfolding deps by (simp add: judged_def incompatible_def verdict_def demo_world_def)
  have files: "python_source_files (fs demo_state) ''path_to_source_directory'' =
                 [[''a.py''], [''sub'', ''b.py'']]"
    by code_simp
  have paths: "path_below ''path_to_source_directory'' [''a.py''] =
                 ''path_to_source_directory/a.py''"
    "path_below ''path_to_source_directory'' [''sub'', ''b.py''] =
                 ''path_to_source_directory/sub/b.py''"
    by code_simp+
  have h6: "\<forall>p \<in> set (python_source_files (fs demo_state) ''path_to_source_directory'').
              started ?w (TwoToThreeDry (path_below ''path_to_source_directory'' p))"
    by (simp add: files paths started_def demo_world_def demo_exec_def)
  from main_previews_python_files
         [OF h1 h2 h3 h4 h5 h6, of "''path_to_destination_directory''"] files paths
  show ?thesis by simp
qed

theorem dry_run_2to3_batch_witness:
  "fst (dry_run_2to3 (demo_world ''Python 3.8.10'' (Inr (PyBool True)) ''n'')
          ''path_to_source_directory'' demo_state) = Inr () \<and>
   dry_runs (new_events demo_state
     (snd (dry_run_2to3 (demo_world ''Python 3.8.10'' (Inr (PyBool True)) ''n'')
          ''path_to_source_directory'' demo_state))) =
     [''path_to_source_directory/a.py'', ''path_to_source_directory/sub/b.py''] \<and>
   LogError ''Error during dry run for path_to_source_directory/sub/b.py: cannot parse''
     \<in> set (new_events demo_state
     (snd (dry_run_2to3 (demo_world ''Python 3.8.10'' (Inr (PyBool True)) ''n'')
          ''path_to_source_directory'' demo_state)))"
proof -
  let ?w = "demo_world ''Python 3.8.10'' (Inr (PyBool True)) ''n''"
  have files: "python_files (fs demo_state) ''path_to_source_directory'' =
     [''path_to_source_directory/a.py'', ''path_to_source_directory/sub/b.py'']"
    by code_simp
  have h1: "\<forall>p \<in> set (python_files (fs demo_state) ''path_to_source_directory'').
              started ?w (TwoToThreeDry p)"
    by (simp add: files started_def demo_world_def demo_exec_def)
  have h2: "is_dir (fs demo_state) []"
    by (simp add: is_dir_def demo_state_def demo_tree_def)
  have h3: "\<not> is_dir (fs demo_state) [''changes_for_update.log'']"
    by (simp add: is_dir_def demo_state_def demo_tree_def)
  have e: "exec ?w (TwoToThreeDry ''path_to_source_directory/sub/b.py'') =
             ExitNonzero ''exit status 1'' '' cannot parse ''"
    by (simp add: demo_world_def demo_exec_def)
  have s: "strip '' cannot parse '' = ''cannot parse''"
    by code_simp
  from dry_run_2to3_batch [OF h1 h2 h3] obtain pc :: "(string \<times> string) list" where
    1: "fst (dry_run_2to3 ?w ''path_to_source_directory'' demo_state) = Inr ()" and
    2: "dry_runs (new_events demo_state (snd (dry_run_2to3 ?w ''path_to_source_directory'' demo_state))) =
          python_files (fs demo_state) ''path_to_source_directory''" and
    3: "\<forall>p m out. p \<in> set (python_files (fs demo_state) ''path_to_source_directory'') \<and>
                 exec ?w (TwoToThreeDry p) = ExitNonzero m out \<longrightarrow>
        LogError (''Error during dry run for '' @ p @ '': '' @ strip out)
          \<in> set (new_events demo_state (snd (dry_run_2to3 ?w ''path_to_source_directory'' demo_state)))"
    by (elim exE conjE)
  from 3 [rule_format, of "''path_to_source_directory/sub/b.py''" "''exit status 1''" "'' cannot parse ''"]
    files e s
  have "LogError ''Error during dry run for path_to_source_directory/sub/b.py: cannot parse''
     \<in> set (new_events demo_state (snd (dry_run_2to3 ?w ''path_to_source_directory'' demo_state)))"
    by simp
  with 1 2 files show ?thesis by simp
qed

subsection \<open>The events of a migration\<close>

lemma scan_python_version_trace:
  "trace (snd (scan_python_version w src st)) = trace st @ [Exec (PythonVersion src)]"
  by (simp add: scan_python_version_def check_output_def
        split: proc_result.splits option.splits)

lemma find_incompatible_quiet:
  "\<exists>es. trace (snd (find_incompatible w deps acc st)) = trace st @ es \<and>
        filter is_migration es = []"
proof (induction deps arbitrary: acc st)
  case Nil
  show ?case by simp
next
  case (Cons d deps)
  obtain name version where d: "d = (name, version)" by (cases d)
  let ?e = "Interpret (default_environment w) (name @ ''=='' @ version)"
  show ?case
  proof (cases "markers_interpret w (default_environment w) (name @ ''=='' @ version)")
    case (Inl e)
    with d have "trace (snd (find_incompatible w (d # deps) acc st)) = trace st @ [?e]"
      by (simp add: is_compatible_def Let_def)
    then show ?thesis by (intro exI [of _ "[?e]"] conjI) simp_all
  next
    case (Inr v)
    let ?acc = "if \<not> truthy v then acc @ [(name, version)] else acc"
    from Cons.IH [of ?acc "emit ?e st"] obtain es where
      t: "trace (snd (find_incompatible w deps ?acc (emit ?e st))) = trace (emit ?e st) @ es" and
      q: "filter is_migration es = []"
      by (elim exE conjE)
    from Inr d t have "trace (snd (find_incompatible w (d # deps) acc st)) = trace st @ (?e # es)"
      by (simp add: is_compatible_def Let_def)
    moreover from q have "filter is_migration (?e # es) = []" by simp
    ultimately show ?thesis by (intro exI [of _ "?e # es"] conjI)
  qed
qed

lemma report_incompatible_quiet:
  "\<exists>es. trace (snd (report_incompatible inc st)) = trace st @ es \<and> filter is_migration es = []"
proof -
  let ?a = "LogInfo ''The following dependencies are not compatible with Python 3.9:''"
  let ?z = "LogInfo ''Please review the compatibility-concerns.log file for more details.''"
  obtain r st2 where w: "write_file ''compatibility-concerns.log'' (concerns_text inc) (emit ?a st) = (r, st2)"
    by (cases "write_file ''compatibility-concerns.log'' (concerns_text inc) (emit ?a st)")
  from write_file_trace [of "''compatibility-concerns.log''" "concerns_text inc" "emit ?a st"] w
  have t2: "trace st2 = trace st @ [?a]" by simp
  show ?thesis
  proof (cases r)
    case (Inl e)
    with w t2 have "trace (snd (report_incompatible inc st)) = trace st @ [?a]"
      by (simp add: report_incompatible_def Let_def)
    then show ?thesis by (intro exI [of _ "[?a]"] conjI) simp_all
  next
    case (Inr u)
    let ?es = "?a # map (\<lambda>(name, version). LogInfo (name @ ''=='' @ version)) inc @ [?z]"
    from Inr w t2 have "trace (snd (report_incompatible inc st)) = trace st @ ?es"
      by (simp add: report_incompatible_def Let_def foldl_emit_trace)
    moreover have "filter is_migration ?es = []"
      by (simp add: filter_empty_conv split: prod.splits)
    ultimately show ?thesis by (intro exI [of _ ?es] conjI)
  qed
qed

lemma dry_run_files_quiet:
  "\<exists>es. trace (snd (dry_run_files w files pc st)) = trace st @ es \<and> filter is_migration es = []"
proof (induction files arbitrary: pc st)
  case Nil
  show ?case by simp
next
  case (Cons file_path rest)
  let ?x = "Exec (TwoToThreeDry file_path)"
  show ?case
  proof (cases "exec w (TwoToThreeDry file_path)")
    case (SpawnFailed c m)
    then have "trace (snd (dry_run_files w (file_path # rest) pc st)) = trace st @ [?x]"
      by (simp add: check_output_def)
    then show ?thesis by (intro exI [of _ "[?x]"] conjI) simp_all
  next
    case (Exit0 out)
    from Cons.IH [of "dict_set file_path out pc" "emit ?x st"] obtain es where
      t: "trace (snd (dry_run_files w rest (dict_set file_path out pc) (emit ?x st))) =
            trace (emit ?x st) @ es" and
      q: "filter is_migration es = []"
      by (elim exE conjE)
    from Exit0 t have "trace (snd (dry_run_files w (file_path # rest) pc st)) = trace st @ (?x # es)"
      by (simp add: check_output_def)
    moreover from q have "filter is_migration (?x # es) = []" by simp
    ultimately show ?thesis by (intro exI [of _ "?x # es"] conjI)
  next
    case (ExitNonzero m out)
    let ?l = "LogError (''Error during dry run for '' @ file_path @ '': '' @ strip out)"
    from Cons.IH [of pc "emit ?l (emit ?x st)"] obtain es where
      t: "trace (snd (dry_run_files w rest pc (emit ?l (emit ?x st)))) =
            trace (emit ?l (emit ?x st)) @ es" and
      q: "filter is_migration es = []"
      by (elim exE conjE)
    from ExitNonzero t have
      "trace (snd (dry_run_files w (file_path # rest) pc st)) = trace st @ (?x # ?l # es)"
      by (simp add: check_output_def)
    moreover from q have "filter is_migration (?x # ?l # es) = []" by simp
    ultimately show ?thesis by (intro exI [of _ "?x # ?l # es"] conjI)
  qed
qed

lemma dry_run_2to3_quiet:
  "\<exists>es. trace (snd (dry_run_2to3 w src st)) = trace st @ es \<and> filter is_migration es = []"
proof -
  from dry_run_files_quiet [of w "python_files (fs st) src" "[]" st] obtain es where
    t: "trace (snd (dry_run_files w (python_files (fs st) src) [] st)) = trace st @ es" and
    q: "filter is_migration es = []"
    by (elim exE conjE)
  obtain r st1 where d: "dry_run_files w (python_files (fs st) src) [] st = (r, st1)"
    by (cases "dry_run_files w (python_files (fs st) src) [] st")
  with t have t1: "trace st1 = trace st @ es" by simp
  have "trace (snd (dry_run_2to3 w src st)) = trace st @ es"
  proof (cases r)
    case (Inl e)
    with d t1 show ?thesis by (simp add: dry_run_2to3_def)
  next
    case (Inr pc)
    with d t1 write_file_trace [of "''changes_for_update.log''" "changes_text pc" st1]
    show ?thesis by (simp add: dry_run_2to3_def)
  qed
  with q show ?thesis by (intro exI [of _ es] conjI)
qed

lemma update_to_python_3_9_migration:
  "\<exists>es. trace (snd (update_to_python_3_9 w src dst st)) = trace st @ es \<and>
        es \<in> {[CopyTree src dst], [CopyTree src dst, Exec (TwoToThreeWrite dst)]}"
proof (cases "copytree src dst st")
  case (Pair r st1)
  with copytree_trace [of src dst st] have t: "trace st1 = trace st @ [CopyTree src dst]"
    by simp
  show ?thesis
  proof (cases r)
    case (Inl e)
    with Pair t have "trace (snd (update_to_python_3_9 w src dst st)) = trace st @ [CopyTree src dst]"
      by (simp add: update_to_python_3_9_def)
    then show ?thesis by (intro exI [of _ "[CopyTree src dst]"] conjI) simp_all
  next
    case (Inr u)
    with Pair t subprocess_run_trace [of w "TwoToThreeWrite dst" st1]
    have "trace (snd (update_to_python_3_9 w src dst st)) =
            trace st @ [CopyTree src dst, Exec (TwoToThreeWrite dst)]"
      by (simp add: update_to_python_3_9_def)
    then show ?thesis
      by (intro exI [of _ "[CopyTree src dst, Exec (TwoToThreeWrite dst)]"] conjI) simp_all
  qed
qed

lemma confirm_update_migration:
  "\<exists>es. trace (snd (confirm_update w src dst st)) = trace st @ es \<and>
        filter is_migration es \<in>
          {[], [CopyTree src dst], [CopyTree src dst, Exec (TwoToThreeWrite dst)]}"
proof (cases "stdin_line w")
  case None
  let ?p = "Prompt ''Enter 'Y' to proceed with the update or 'N' to cancel: ''"
  from None have "trace (snd (confirm_update w src dst st)) = trace st @ [?p]"
    by (simp add: confirm_update_def input_def)
  then show ?thesis by (intro exI [of _ "[?p]"] conjI) simp_all
next
  case (Some line)
  let ?p = "Prompt ''Enter 'Y' to proceed with the update or 'N' to cancel: ''"
  show ?thesis
  proof (cases "lower (strip line) = ''y''")
    case False
    let ?l = "if lower (strip line) = ''n'' then LogInfo ''Update canceled.''
              else LogError ''Invalid input. Update canceled.''"
    from False Some have "trace (snd (confirm_update w src dst st)) = trace st @ [?p, ?l]"
      by (simp add: confirm_update_def input_def Let_def)
    moreover have "filter is_migration [?p, ?l] = []" by simp
    ultimately show ?thesis by (intro exI [of _ "[?p, ?l]"] conjI) simp_all
  next
    case True
    from update_to_python_3_9_migration [of w src dst "emit ?p st"] obtain es where
      t: "trace (snd (update_to_python_3_9 w src dst (emit ?p st))) = trace (emit ?p st) @ es" and
      m: "es \<in> {[CopyTree src dst], [CopyTree src dst, Exec (TwoToThreeWrite dst)]}"
      by (elim exE conjE)
    obtain r st2 where u: "update_to_python_3_9 w src dst (emit ?p st) = (r, st2)"
      by (cases "update_to_python_3_9 w src dst (emit ?p st)")
    with t have t2: "trace st2 = trace st @ ?p # es" by simp
    from m have fm: "filter is_migration es = es" by auto
    show ?thesis
    proof (cases r)
      case (Inl e)
      with True Some u t2 have "trace (snd (confirm_update w src dst st)) = trace st @ (?p # es)"
        by (simp add: confirm_update_def input_def)
      moreover from fm m have "filter is_migration (?p # es) \<in>
          {[], [CopyTree src dst], [CopyTree src dst, Exec (TwoToThreeWrite dst)]}"
        by simp
      ultimately show ?thesis by (intro exI [of _ "?p # es"] conjI)
    next
      case (Inr v)
      let ?s = "LogInfo ''Update to Python 3.9 successful.''"
      from Inr True Some u t2 have
        "trace (snd (confirm_update w src dst st)) = trace st @ (?p # es @ [?s])"
        by (simp add: confirm_update_def input_def)
      moreover from fm m have "filter is_migration (?p # es @ [?s]) \<in>
          {[], [CopyTree src dst], [CopyTree src dst, Exec (TwoToThreeWrite dst)]}"
        by simp
      ultimately show ?thesis by (intro exI [of _ "?p # es @ [?s]"] conjI)
    qed
  qed
qed

lemma preview_and_update_migration:
  "\<exists>es. trace (snd (preview_and_update w src dst st)) = trace st @ es \<and>
        filter is_migration es \<in>
          {[], [CopyTree src dst], [CopyTree src dst, Exec (TwoToThreeWrite dst)]}"
proof -
  from dry_run_2to3_quiet [of w src st] obtain es where
    t: "trace (snd (dry_run_2to3 w src st)) = trace st @ es" and q: "filter is_migration es = []"
    by (elim exE conjE)
  obtain r st1 where d: "dry_run_2to3 w src st = (r, st1)"
    by (cases "dry_run_2to3 w src st")
  with t have t1: "trace st1 = trace st @ es" by simp
  show ?thesis
  proof (cases r)
    case (Inl e)
    with d t1 have "trace (snd (preview_and_update w src dst st)) = trace st @ es"
      by (simp add: preview_and_update_def)
    moreover from q have "filter is_migration es \<in>
          {[], [CopyTree src dst], [CopyTree src dst, Exec (TwoToThreeWrite dst)]}"
      by simp
    ultimately show ?thesis by (intro exI [of _ es] conjI)
  next
    case (Inr u)
    let ?l = "LogInfo ''Dry run completed. Proposed changes logged in 'changes_for_update.log'.''"
    from confirm_update_migration [of w src dst "emit ?l st1"] obtain es' where
      c: "trace (snd (confirm_update w src dst (emit ?l st1))) = trace (emit ?l st1) @ es'" and
      m: "filter is_migration es' \<in>
          {[], [CopyTree src dst], [CopyTree src dst, Exec (TwoToThreeWrite dst)]}"
      by (elim exE conjE)
    from Inr d c t1 have "trace (snd (preview_and_update w src dst st)) = trace st @ (es @ ?l # es')"
      by (simp add: preview_and_update_def)
    moreover from q m have "filter is_migration (es @ ?l # es') \<in>
          {[], [CopyTree src dst], [CopyTree src dst, Exec (TwoToThreeWrite dst)]}"
      by simp
    ultimately show ?thesis by (intro exI [of _ "es @ ?l # es'"] conjI)
  qed
qed

lemma check_dependencies_migration:
  "\<exists>es. trace (snd (check_dependencies w src dst st)) = trace st @ es \<and>
        filter is_migration es \<in>
          {[], [CopyTree src dst], [CopyTree src dst, Exec (TwoToThreeWrite dst)]}"
proof -
  let ?M = "{[], [CopyTree src dst], [CopyTree src dst, Exec (TwoToThreeWrite dst)]}"
  let ?x = "Exec Pipdeptree"
  obtain r1 st1 where c: "check_output w Pipdeptree st = (r1, st1)"
    by (cases "check_output w Pipdeptree st")
  then have t1: "trace st1 = trace st @ [?x]"
    by (auto simp add: check_output_def split: proc_result.splits)
  show ?thesis
  proof (cases r1)
    case (Inl e)
    with c t1 have "trace (snd (check_dependencies w src dst st)) = trace st @ [?x]"
      by (simp add: check_dependencies_def scan_dependencies_def)
    then show ?thesis by (intro exI [of _ "[?x]"] conjI) simp_all
  next
    case (Inr dependency_tree)
    let ?deps = "re_findall_dependencies dependency_tree"
    from find_incompatible_quiet [of w ?deps "[]" st1] obtain es2 where
      f: "trace (snd (find_incompatible w ?deps [] st1)) = trace st1 @ es2" and
      q2: "filter is_migration es2 = []"
      by (elim exE conjE)
    obtain r2 st2 where fi: "find_incompatible w ?deps [] st1 = (r2, st2)"
      by (cases "find_incompatible w ?deps [] st1")
    with f t1 have t2: "trace st2 = trace st @ ?x # es2" by simp
    show ?thesis
    proof (cases r2)
      case (Inl e)
      with Inr c fi t2 have "trace (snd (check_dependencies w src dst st)) = trace st @ (?x # es2)"
        by (simp add: check_dependencies_def scan_dependencies_def)
      moreover from q2 have "filter is_migration (?x # es2) \<in> ?M" by simp
      ultimately show ?thesis by (intro exI [of _ "?x # es2"] conjI)
    next
      case inc: (Inr incompatible_dependencies)
      show ?thesis
      proof (cases "incompatible_dependencies = []")
        case False
        from report_incompatible_quiet [of incompatible_dependencies st2] obtain es3 where
          t3: "trace (snd (report_incompatible incompatible_dependencies st2)) = trace st2 @ es3" and
          q3: "filter is_migration es3 = []"
          by (elim exE conjE)
        from False inc Inr c fi t2 t3 have
          "trace (snd (check_dependencies w src dst st)) = trace st @ (?x # es2 @ es3)"
          by (simp add: check_dependencies_def scan_dependencies_def)
        moreover from q2 q3 have "filter is_migration (?x # es2 @ es3) \<in> ?M" by simp
        ultimately show ?thesis by (intro exI [of _ "?x # es2 @ es3"] conjI)
      next
        case True
        let ?l = "LogInfo
            ''All dependencies are compatible with Python 3.9. Proceeding with the update.''"
        from preview_and_update_migration [of w src dst "emit ?l st2"] obtain es4 where
          t4: "trace (snd (preview_and_update w src dst (emit ?l st2))) = trace (emit ?l st2) @ es4" and
          m4: "filter is_migration es4 \<in> ?M"
          by (elim exE conjE)
        obtain r4 st4 where p: "preview_and_update w src dst (emit ?l st2) = (r4, st4)"
          by (cases "preview_and_update w src dst (emit ?l st2)")
        with t4 t2 have t4': "trace st4 = trace st @ ?x # es2 @ ?l # es4" by simp
        let ?h = "case r4 of Inl e \<Rightarrow>
                    if is_Exception e then [LogError (''Error during update: '' @ str_of e)] else []
                  | Inr u \<Rightarrow> []"
        have qh: "filter is_migration ?h = []"
          by (simp split: sum.splits)
        from True inc Inr c fi p t4' have
          "trace (snd (check_dependencies w src dst st)) = trace st @ (?x # es2 @ ?l # es4 @ ?h)"
          by (cases r4) (simp_all add: check_dependencies_def scan_dependencies_def)
        moreover from q2 m4 qh have "filter is_migration (?x # es2 @ ?l # es4 @ ?h) \<in> ?M"
          by simp
        ultimately show ?thesis by (intro exI [of _ "?x # es2 @ ?l # es4 @ ?h"] conjI)
      qed
    qed
  qed
qed

lemma main_migration:
  "filter is_migration (new_events st (snd (main w src dst st))) \<in>
     {[], [CopyTree src dst], [CopyTree src dst, Exec (TwoToThreeWrite dst)]}"
proof -
  let ?M = "{[], [CopyTree src dst], [CopyTree src dst, Exec (TwoToThreeWrite dst)]}"
  let ?x = "Exec (PythonVersion src)"
  obtain r1 st1 where s: "scan_python_version w src st = (r1, st1)"
    by (cases "scan_python_version w src st")
  with scan_python_version_trace [of w src st] have t1: "trace st1 = trace st @ [?x]" by simp
  have "\<exists>es. trace (snd (main w src dst st)) = trace st @ es \<and> filter is_migration es \<in> ?M"
  proof (cases r1)
    case (Inl e)
    let ?h = "if is_RuntimeError e then [LogError (str_of e)] else []"
    from Inl s t1 have "trace (snd (main w src dst st)) = trace st @ (?x # ?h)"
      by (simp add: main_def)
    moreover have "filter is_migration (?x # ?h) \<in> ?M" by simp
    ultimately show ?thesis by (intro exI [of _ "?x # ?h"] conjI)
  next
    case (Inr v)
    let ?d = "LogInfo (''Detected Python version: '' @ v)"
    show ?thesis
    proof (cases "startswith v ''3.9''")
      case True
      let ?a = "LogInfo ''Python version is already 3.9.x. No need to update.''"
      from True Inr s t1 have "trace (snd (main w src dst st)) = trace st @ [?x, ?d, ?a]"
        by (simp add: main_def Let_def)
      moreover have "filter is_migration [?x, ?d, ?a] \<in> ?M" by simp
      ultimately show ?thesis by (intro exI [of _ "[?x, ?d, ?a]"] conjI)
    next
      case False
      from check_dependencies_migration [of w src dst "emit ?d st1"] obtain es where
        t: "trace (snd (check_dependencies w src dst (emit ?d st1))) = trace (emit ?d st1) @ es" and
        m: "filter is_migration es \<in> ?M"
        by (elim exE conjE)
      obtain r3 st3 where c: "check_dependencies w src dst (emit ?d st1) = (r3, st3)"
        by (cases "check_dependencies w src dst (emit ?d st1)")
      with t t1 have t3: "trace st3 = trace st @ ?x # ?d # es" by simp
      let ?h = "case r3 of Inl e \<Rightarrow>
                  if is_Exception e
                  then [LogError (''Error during dependency scan: '' @ str_of e)] else []
                | Inr u \<Rightarrow> []"
      have qh: "filter is_migration ?h = []"
        by (simp split: sum.splits)
      from False Inr s c t3 have "trace (snd (main w src dst st)) = trace st @ (?x # ?d # es @ ?h)"
        by (cases r3) (simp_all add: main_def Let_def)
      moreover from m qh have "filter is_migration (?x # ?d # es @ ?h) \<in> ?M" by simp
      ultimately show ?thesis by (intro exI [of _ "?x # ?d # es @ ?h"] conjI)
    qed
  qed
  then obtain es where "trace (snd (main w src dst st)) = trace st @ es"
    and "filter is_migration es \<in> ?M"
    by (elim exE conjE)
  then show ?thesis by (simp add: new_events_def)
qed

subsection \<open>The source tree\<close>

text \<open>
  C10, as amended. Let the source and the destination be given by plain paths: names
  separated by single \<^verbatim>\<open>/\<close>, none of them \<^verbatim>\<open>.\<close> or \<^verbatim>\<open>..\<close>, read from the working
  directory. When neither the destination nor one of the two log files, which are
  written to the working directory, lies at or below the source directory, a run of
  \<open>main\<close> leaves the source directory as it was: the same files with the same contents,
  whatever the external programs, the evaluator and the user answer. And the only
  events of the run that copy a tree or run \<^verbatim>\<open>2to3\<close> in write mode are, at most, the copy
  of the source to the destination and, after it, the rewrite of the destination.
\<close>

theorem main_leaves_source:
  assumes "plain_path src" and "plain_path dst"
    and "\<not> prefix (resolve src) (resolve dst)"
    and "\<not> prefix (resolve src) [''changes_for_update.log'']"
    and "\<not> prefix (resolve src) [''compatibility-concerns.log'']"
  shows "lookup (fs (snd (main w src dst st))) (resolve src) = lookup (fs st) (resolve src) \<and>
         filter is_migration (new_events st (snd (main w src dst st))) \<in>
           {[], [CopyTree src dst], [CopyTree src dst, Exec (TwoToThreeWrite dst)]}"
  using main_source_frame [OF assms(3) assms(4) assms(5)] main_migration by (intro conjI)

theorem main_leaves_source_witness:
  "lookup (fs (snd (main (porting_world ''y'') ''path_to_source_directory'' ''out'' demo_state)))
     [''path_to_source_directory''] =
   Some (Dir [(''a.py'', File ''print 1''),
              (''sub'', Dir [(''b.py'', File ''print 2''), (''notes.txt'', File ''hello'')])]) \<and>
   lookup (fs (snd (main (porting_world ''y'') ''path_to_source_directory'' ''out'' demo_state)))
     [''out''] =
   Some (Dir [(''a.py'', File ''print(1)''),
              (''sub'', Dir [(''b.py'', File ''print(2)''), (''notes.txt'', File ''hello'')])]) \<and>
   filter is_migration
     (new_events demo_state
        (snd (main (porting_world ''y'') ''path_to_source_directory'' ''out'' demo_state))) =
   [CopyTree ''path_to_source_directory'' ''out'', Exec (TwoToThreeWrite ''out'')]"
proof -
  have p: "plain_path ''path_to_source_directory''" "plain_path ''out''"
    by code_simp+
  have r: "resolve ''path_to_source_directory'' = [''path_to_source_directory'']"
    "resolve ''out'' = [''out'']"
    by code_simp+
  have copy: "lookup (fs (snd (main (porting_world ''y'') ''path_to_source_directory'' ''out''
                                 demo_state))) [''out''] =
   Some (Dir [(''a.py'', File ''print(1)''),
              (''sub'', Dir [(''b.py'', File ''print(2)''), (''notes.txt'', File ''hello'')])])"
    by code_simp
  have events: "filter is_migration
     (new_events demo_state
        (snd (main (porting_world ''y'') ''path_to_source_directory'' ''out'' demo_state))) =
   [CopyTree ''path_to_source_directory'' ''out'', Exec (TwoToThreeWrite ''out'')]"
    by code_simp
  from main_leaves_source
         [of "''path_to_source_directory''" "''out''" "porting_world ''y''" demo_state]
       p r copy events
  show ?thesis by (simp add: demo_state_def demo_tree_def)
qed

text \<open>
  C10, as stated, fails: with the working directory as the source directory, the
  preview replaces the file \<^verbatim>\<open>changes_for_update.log\<close> of the source directory.
\<close>

theorem main_writes_log_into_source:
  "lookup (fs demo_state) (resolve ''./changes_for_update.log'') = Some (File ''stale'') \<and>
   lookup (fs (snd (main (demo_world ''Python 3.8.10'' (Inr (PyBool True)) ''n'') ''.'' ''out''
                      demo_state)))
     (resolve ''./changes_for_update.log'') = Some (File [])"
  by code_simp

subsection \<open>The script and its destination\<close>

lemma confirm_update_existing_destination:
  assumes "lookup (fs st) (resolve dst) = Some n"
  shows "\<exists>es. trace (snd (confirm_update w src dst st)) = trace st @ es \<and>
              filter is_migration es \<in> {[], [CopyTree src dst]} \<and>
              fs (snd (confirm_update w src dst st)) = fs st"
proof (cases "stdin_line w")
  case None
  let ?p = "Prompt ''Enter 'Y' to proceed with the update or 'N' to cancel: ''"
  from None have "confirm_update w src dst st =
      (Inl (Raised EOFError ''EOF when reading a line''), emit ?p st)"
    by (simp add: confirm_update_def input_def)
  then show ?thesis by (intro exI [of _ "[?p]"] conjI) simp_all
next
  case (Some line)
  let ?p = "Prompt ''Enter 'Y' to proceed with the update or 'N' to cancel: ''"
  show ?thesis
  proof (cases "lower (strip line) = ''y''")
    case False
    let ?l = "if lower (strip line) = ''n'' then LogInfo ''Update canceled.''
              else LogError ''Invalid input. Update canceled.''"
    from False Some have "confirm_update w src dst st = (Inr (), emit ?l (emit ?p st))"
      by (simp add: confirm_update_def input_def Let_def)
    then show ?thesis by (intro exI [of _ "[?p, ?l]"] conjI) simp_all
  next
    case True
    from assms have "lookup (fs (emit ?p st)) (resolve dst) = Some n" by simp
    from update_on_existing_destination [OF this, of w src] obtain e where
      "update_to_python_3_9 w src dst (emit ?p st) = (Inl e, emit (CopyTree src dst) (emit ?p st))"
      by (elim exE)
    with True Some have "confirm_update w src dst st =
        (Inl e, emit (CopyTree src dst) (emit ?p st))"
      by (simp add: confirm_update_def input_def)
    then show ?thesis by (intro exI [of _ "[?p, CopyTree src dst]"] conjI) simp_all
  qed
qed

lemma preview_and_update_existing_destination:
  assumes "lookup (fs st) (resolve dst) = Some n"
    and "\<not> prefix (resolve dst) (resolve ''changes_for_update.log'')"
  shows "\<exists>es. trace (snd (preview_and_update w src dst st)) = trace st @ es \<and>
              filter is_migration es \<in> {[], [CopyTree src dst]} \<and>
              lookup (fs (snd (preview_and_update w src dst st))) (resolve dst) = Some n"
proof -
  from dry_run_2to3_quiet [of w src st] obtain es where
    t: "trace (snd (dry_run_2to3 w src st)) = trace st @ es" and q: "filter is_migration es = []"
    by (elim exE conjE)
  obtain r st1 where d: "dry_run_2to3 w src st = (r, st1)"
    by (cases "dry_run_2to3 w src st")
  with t have t1: "trace st1 = trace st @ es" by simp
  from dry_run_2to3_frame [OF d assms(2)] assms(1)
  have l1: "lookup (fs st1) (resolve dst) = Some n" by simp
  show ?thesis
  proof (cases r)
    case (Inl e)
    with d have "preview_and_update w src dst st = (Inl e, st1)"
      by (simp add: preview_and_update_def)
    with t1 q l1 show ?thesis by (intro exI [of _ es] conjI) simp_all
  next
    case (Inr u)
    let ?l = "LogInfo ''Dry run completed. Proposed changes logged in 'changes_for_update.log'.''"
    from l1 have "lookup (fs (emit ?l st1)) (resolve dst) = Some n" by simp
    from confirm_update_existing_destination [OF this, of w src] obtain es' where
      c: "trace (snd (confirm_update w src dst (emit ?l st1))) = trace (emit ?l st1) @ es'" and
      m: "filter is_migration es' \<in> {[], [CopyTree src dst]}" and
      f: "fs (snd (confirm_update w src dst (emit ?l st1))) = fs (emit ?l st1)"
      by (elim exE conjE)
    from Inr d have p: "preview_and_update w src dst st = confirm_update w src dst (emit ?l st1)"
      by (simp add: preview_and_update_def)
    have 1: "trace (snd (preview_and_update w src dst st)) = trace st @ (es @ ?l # es')"
      using p c t1 by simp
    have 2: "filter is_migration (es @ ?l # es') \<in> {[], [CopyTree src dst]}"
      using q m by simp
    have 3: "lookup (fs (snd (preview_and_update w src dst st))) (resolve dst) = Some n"
      using p f l1 by simp
    from 1 2 3 show ?thesis by (intro exI [of _ "es @ ?l # es'"] conjI)
  qed
qed

lemma check_dependencies_existing_destination:
  assumes "lookup (fs st) (resolve dst) = Some n"
    and "\<not> prefix (resolve dst) (resolve ''changes_for_update.log'')"
    and "\<not> prefix (resolve dst) (resolve ''compatibility-concerns.log'')"
  shows "\<exists>es. trace (snd (check_dependencies w src dst st)) = trace st @ es \<and>
              filter is_migration es \<in> {[], [CopyTree src dst]} \<and>
              lookup (fs (snd (check_dependencies w src dst st))) (resolve dst) = Some n"
proof -
  let ?M = "{[], [CopyTree src dst]}"
  let ?x = "Exec Pipdeptree"
  obtain r1 st1 where c: "check_output w Pipdeptree st = (r1, st1)"
    by (cases "check_output w Pipdeptree st")
  then have t1: "trace st1 = trace st @ [?x]"
    by (auto simp add: check_output_def split: proc_result.splits)
  from check_output_fs [OF c] assms(1) have l1: "lookup (fs st1) (resolve dst) = Some n" by simp
  show ?thesis
  proof (cases r1)
    case (Inl e)
    with c have "check_dependencies w src dst st = (Inl e, st1)"
      by (simp add: check_dependencies_def scan_dependencies_def)
    with t1 l1 show ?thesis by (intro exI [of _ "[?x]"] conjI) simp_all
  next
    case (Inr dependency_tree)
    let ?deps = "re_findall_dependencies dependency_tree"
    from find_incompatible_quiet [of w ?deps "[]" st1] obtain es2 where
      f: "trace (snd (find_incompatible w ?deps [] st1)) = trace st1 @ es2" and
      q2: "filter is_migration es2 = []"
      by (elim exE conjE)
    obtain r2 st2 where fi: "find_incompatible w ?deps [] st1 = (r2, st2)"
      by (cases "find_incompatible w ?deps [] st1")
    with f t1 have t2: "trace st2 = trace st @ ?x # es2" by simp
    from find_incompatible_fs [OF fi] l1 have l2: "lookup (fs st2) (resolve dst) = Some n" by simp
    show ?thesis
    proof (cases r2)
      case (Inl e)
      with Inr c fi have "check_dependencies w src dst st = (Inl e, st2)"
        by (simp add: check_dependencies_def scan_dependencies_def)
      with t2 q2 l2 show ?thesis by (intro exI [of _ "?x # es2"] conjI) simp_all
    next
      case inc: (Inr incompatible_dependencies)
      show ?thesis
      proof (cases "incompatible_dependencies = []")
        case False
        from report_incompatible_quiet [of incompatible_dependencies st2] obtain es3 where
          t3: "trace (snd (report_incompatible incompatible_dependencies st2)) = trace st2 @ es3" and
          q3: "filter is_migration es3 = []"
          by (elim exE conjE)
        obtain r3 st3 where rp: "report_incompatible incompatible_dependencies st2 = (r3, st3)"
          by (cases "report_incompatible incompatible_dependencies st2")
        from report_incompatible_frame [OF rp assms(3)] l2
        have l3: "lookup (fs st3) (resolve dst) = Some n" by simp
        from False inc Inr c fi rp have "check_dependencies w src dst st = (r3, st3)"
          by (simp add: check_dependencies_def scan_dependencies_def)
        with rp t3 t2 q2 q3 l3 show ?thesis
          by (intro exI [of _ "?x # es2 @ es3"] conjI) simp_all
      next
        case True
        let ?l = "LogInfo
            ''All dependencies are compatible with Python 3.9. Proceeding with the update.''"
        from l2 have "lookup (fs (emit ?l st2)) (resolve dst) = Some n" by simp
        from preview_and_update_existing_destination [OF this assms(2), of w src] obtain es4 where
          t4: "trace (snd (preview_and_update w src dst (emit ?l st2))) = trace (emit ?l st2) @ es4" and
          m4: "filter is_migration es4 \<in> ?M" and
          l4: "lookup (fs (snd (preview_and_update w src dst (emit ?l st2)))) (resolve dst) = Some n"
          by (elim exE conjE)
        obtain r4 st4 where p: "preview_and_update w src dst (emit ?l st2) = (r4, st4)"
          by (cases "preview_and_update w src dst (emit ?l st2)")
        with t4 t2 have t4': "trace st4 = trace st @ ?x # es2 @ ?l # es4" by simp
        from p l4 have l4': "lookup (fs st4) (resolve dst) = Some n" by simp
        let ?h = "case r4 of Inl e \<Rightarrow>
                    if is_Exception e then [LogError (''Error during update: '' @ str_of e)] else []
                  | Inr u \<Rightarrow> []"
        have qh: "filter is_migration ?h = []"
          by (simp split: sum.splits)
        have 1: "trace (snd (check_dependencies w src dst st)) =
                   trace st @ (?x # es2 @ ?l # es4 @ ?h)"
          using True inc Inr c fi p t4'
          by (cases r4) (simp_all add: check_dependencies_def scan_dependencies_def)
        have 2: "filter is_migration (?x # es2 @ ?l # es4 @ ?h) \<in> ?M"
          using q2 m4 qh by simp
        have 3: "lookup (fs (snd (check_dependencies w src dst st))) (resolve dst) = Some n"
          using True inc Inr c fi p l4'
          by (cases r4) (simp_all add: check_dependencies_def scan_dependencies_def)
        from 1 2 3 show ?thesis by (intro exI [of _ "?x # es2 @ ?l # es4 @ ?h"] conjI)
      qed
    qed
  qed
qed

lemma main_existing_destination:
  assumes "lookup (fs st) (resolve dst) = Some n"
    and "\<not> prefix (resolve dst) (resolve ''changes_for_update.log'')"
    and "\<not> prefix (resolve dst) (resolve ''compatibility-concerns.log'')"
  shows "\<exists>es. trace (snd (main w src dst st)) = trace st @ es \<and>
              filter is_migration es \<in> {[], [CopyTree src dst]} \<and>
              lookup (fs (snd (main w src dst st))) (resolve dst) = Some n"
proof -
  let ?M = "{[], [CopyTree src dst]}"
  let ?x = "Exec (PythonVersion src)"
  obtain r1 st1 where s: "scan_python_version w src st = (r1, st1)"
    by (cases "scan_python_version w src st")
  with scan_python_version_trace [of w src st] have t1: "trace st1 = trace st @ [?x]" by simp
  from scan_python_version_fs [OF s] assms(1) have l1: "lookup (fs st1) (resolve dst) = Some n"
    by simp
  show ?thesis
  proof (cases r1)
    case (Inl e)
    let ?h = "if is_RuntimeError e then [LogError (str_of e)] else []"
    have 1: "trace (snd (main w src dst st)) = trace st @ (?x # ?h)"
      using Inl s t1 by (simp add: main_def)
    have 2: "filter is_migration (?x # ?h) \<in> ?M" by simp
    have 3: "lookup (fs (snd (main w src dst st))) (resolve dst) = Some n"
      using Inl s l1 by (simp add: main_def)
    from 1 2 3 show ?thesis by (intro exI [of _ "?x # ?h"] conjI)
  next
    case (Inr v)
    let ?d = "LogInfo (''Detected Python version: '' @ v)"
    show ?thesis
    proof (cases "startswith v ''3.9''")
      case True
      let ?a = "LogInfo ''Python version is already 3.9.x. No need to update.''"
      from True Inr s have "main w src dst st = (Inr (), emit ?a (emit ?d st1))"
        by (simp add: main_def Let_def)
      with t1 l1 show ?thesis by (intro exI [of _ "[?x, ?d, ?a]"] conjI) simp_all
    next
      case False
      from l1 have "lookup (fs (emit ?d st1)) (resolve dst) = Some n" by simp
      from check_dependencies_existing_destination [OF this assms(2) assms(3), of w src]
      obtain es where
        t: "trace (snd (check_dependencies w src dst (emit ?d st1))) = trace (emit ?d st1) @ es" and
        m: "filter is_migration es \<in> ?M" and
        l: "lookup (fs (snd (check_dependencies w src dst (emit ?d st1)))) (resolve dst) = Some n"
        by (elim exE conjE)
      obtain r3 st3 where c: "check_dependencies w src dst (emit ?d st1) = (r3, st3)"
        by (cases "check_dependencies w src dst (emit ?d st1)")
      with t t1 have t3: "trace st3 = trace st @ ?x # ?d # es" by simp
      from c l have l3: "lookup (fs st3) (resolve dst) = Some n" by simp
      let ?h = "case r3 of Inl e \<Rightarrow>
                  if is_Exception e
                  then [LogError (''Error during dependency scan: '' @ str_of e)] else []
                | Inr u \<Rightarrow> []"
      have qh: "filter is_migration ?h = []"
        by (simp split: sum.splits)
      have 1: "trace (snd (main w src dst st)) = trace st @ (?x # ?d # es @ ?h)"
        using False Inr s c t3 by (cases r3) (simp_all add: main_def Let_def)
      have 2: "filter is_migration (?x # ?d # es @ ?h) \<in> ?M"
        using m qh by simp
      have 3: "lookup (fs (snd (main w src dst st))) (resolve dst) = Some n"
        using False Inr s c l3 by (cases r3) (simp_all add: main_def Let_def)
      from 1 2 3 show ?thesis by (intro exI [of _ "?x # ?d # es @ ?h"] conjI)
    qed
  qed
qed

text \<open>
  Whatever the external programs and the user answer, a run of the script leaves the
  destination directory as it was and never runs \<^verbatim>\<open>2to3\<close> in write mode: the entry point
  goes on only when the destination exists, and then the copy raises.
\<close>

lemma run_script_never_migrates:
  "filter is_migration (new_events st (snd (run_script w st))) \<in>
     {[], [CopyTree source_directory destination_directory]} \<and>
   lookup (fs (snd (run_script w st))) (resolve destination_directory) =
     lookup (fs st) (resolve destination_directory)"
proof (cases "os_path_exists (fs st) source_directory \<and> os_path_exists (fs st) destination_directory")
  case False
  then have "\<exists>m. run_script w st = (Inr (), emit (Print m) st)"
    by (auto simp add: run_script_def)
  then obtain m where "run_script w st = (Inr (), emit (Print m) st)" by (elim exE)
  then show ?thesis by (simp add: new_events_def)
next
  case True
  then obtain n where n: "lookup (fs st) (resolve destination_directory) = Some n"
    by (auto simp add: os_path_exists_def)
  have r: "resolve destination_directory = [''path_to_destination_directory'']"
    "resolve ''changes_for_update.log'' = [''changes_for_update.log'']"
    "resolve ''compatibility-concerns.log'' = [''compatibility-concerns.log'']"
    by code_simp+
  have p1: "\<not> prefix (resolve destination_directory) (resolve ''changes_for_update.log'')"
    and p2: "\<not> prefix (resolve destination_directory) (resolve ''compatibility-concerns.log'')"
    by (simp_all add: r)
  from n have "lookup (fs (setup_logging st)) (resolve destination_directory) = Some n"
    by (simp add: setup_logging_def)
  from main_existing_destination [OF this p1 p2, of w source_directory] obtain es where
    t: "trace (snd (main w source_directory destination_directory (setup_logging st))) =
          trace (setup_logging st) @ es" and
    m: "filter is_migration es \<in> {[], [CopyTree source_directory destination_directory]}" and
    l: "lookup (fs (snd (main w source_directory destination_directory (setup_logging st))))
          (resolve destination_directory) = Some n"
    by (elim exE conjE)
  from True have run: "run_script w st =
      main w source_directory destination_directory (setup_logging st)"
    by (simp add: run_script_def)
  have "new_events st (snd (run_script w st)) = SetupLogging # es"
    using run t by (simp add: new_events_def setup_logging_def)
  with m l n run show ?thesis by simp
qed

end
